theory Spec2Isabelle
  imports Main
begin

section \<open>Boundly: the usage-limit blocking policy\<close>

text \<open>
  The development follows the three places where the repository evaluates the blocking
  policy: the React hook \<^verbatim>\<open>useBlockingService\<close> (TypeScript), the polling foreground
  service \<^verbatim>\<open>BlockingService\<close> and the event-driven \<^verbatim>\<open>AppBlockingAccessibilityService\<close>
  (Kotlin), together with the stores and native modules they read.

  Conventions of the embedding.
  \<^item> Milliseconds are \<^typ>\<open>int\<close>: the JavaScript numbers and the Kotlin \<^verbatim>\<open>Long\<close>s that carry
    them are only compared, never added, so no wrap-around can occur; the one product,
    \<^verbatim>\<open>24 * 60 * 60 * 1000L\<close>, is far below \<^verbatim>\<open>Long.MAX_VALUE\<close>. Non-integral and
    \<^verbatim>\<open>NaN\<close> numbers are outside the model.
  \<^item> A JavaScript object used as a dictionary is a map \<open>string \<rightharpoonup> int\<close>; a missing key
    (\<^verbatim>\<open>undefined\<close>) is \<^const>\<open>None\<close>. Keys are Android package names, which always contain
    a dot, so no key collides with a property of \<^verbatim>\<open>Object.prototype\<close>.
  \<^item> A call into the operating system yields \<open>exn + 'a\<close>: \<^const>\<open>Inl\<close> is the exception
    thrown (or the rejected promise), \<^const>\<open>Inr\<close> the value returned.
  \<^item> Side effects are event lists, in program order: a function returns the calls it
    makes to its collaborators (queries, state setters, error log lines). Debug log lines
    (\<^verbatim>\<open>console.log\<close>, \<^verbatim>\<open>Log.d\<close>) are left out.
\<close>

datatype exn = Exception string | NameNotFoundException string

subsection \<open>Stores (TypeScript)\<close>

text \<open>
  \<^verbatim>\<open>SelectedApp\<close> (useAppStore.ts) and \<^verbatim>\<open>ForegroundAppInfo\<close> (NativeForegroundAppModule.ts)
  have the same two fields; \<^verbatim>\<open>BlockedApp\<close> (useBlockingService.ts) and \<^verbatim>\<open>UsageStat\<close> add
  fields to them.
\<close>

record SelectedApp =
  packageName :: string
  appName :: string

record BlockedApp = SelectedApp +
  usageMs :: int
  limitMs :: int

record UsageStat = SelectedApp +
  totalTimeInForeground :: int

type_synonym limits_map = "string \<rightharpoonup> int"

text \<open>
  useLimitsStore.ts. \<^verbatim>\<open>setLimit\<close> builds \<^verbatim>\<open>{ ...state.limits, [packageName]: limitMs }\<close>,
  \<^verbatim>\<open>removeLimit\<close> destructures the key away, \<^verbatim>\<open>getLimit\<close> indexes the object. The copy
  persisted through MMKV is not read by any of them and is left out.
\<close>

definition setLimit :: "string \<Rightarrow> int \<Rightarrow> limits_map \<Rightarrow> limits_map" where
  "setLimit pkg limit_ms lims = lims(pkg \<mapsto> limit_ms)"

definition getLimit :: "limits_map \<Rightarrow> string \<Rightarrow> int option" where
  "getLimit lims pkg = lims pkg"

definition removeLimit :: "string \<Rightarrow> limits_map \<Rightarrow> limits_map" where
  "removeLimit pkg lims = lims(pkg := None)"

text \<open>
  useUsageStore.ts. \<^verbatim>\<open>refreshUsage\<close> awaits the native \<^verbatim>\<open>getTodayUsageStats\<close>, turns the
  array into an object (a later entry of the same package overwrites an earlier one) and
  moves the old \<^verbatim>\<open>todayUsage\<close> to \<^verbatim>\<open>yesterdayUsage\<close>. Its own \<^verbatim>\<open>try/catch\<close> swallows a
  rejection: the store then keeps what it had. The fields \<^verbatim>\<open>lastUpdated\<close> and \<^verbatim>\<open>isLoading\<close>
  and the copy persisted through MMKV are not read by the policy and are left out.
\<close>

record usage_store =
  todayUsage :: "string \<rightharpoonup> int"
  yesterdayUsage :: "string \<rightharpoonup> int"

datatype js_event =
    GetTodayUsageStats
  | GetCurrentForegroundApp
  | SetBlockedApp "BlockedApp option"
  | SetIsServiceRunning bool
  | StartBlockingService "string list" "(string \<times> int) list"
  | StopBlockingService
  | ConsoleError string

definition usageArrayToMap :: "UsageStat list \<Rightarrow> (string \<rightharpoonup> int)" where
  "usageArrayToMap stats =
     fold (\<lambda>stat m. m(packageName stat \<mapsto> totalTimeInForeground stat)) stats Map.empty"

definition refreshUsage ::
  "(exn + UsageStat list) option \<Rightarrow> usage_store \<Rightarrow> usage_store \<times> js_event list" where
  "refreshUsage usageStatsModule st =
     (case usageStatsModule of
        None \<Rightarrow> (st, [])
      | Some (Inl e) \<Rightarrow>
          (st, [GetTodayUsageStats, ConsoleError ''Error refreshing usage stats:''])
      | Some (Inr stats) \<Rightarrow>
          (\<lparr>todayUsage = usageArrayToMap stats, yesterdayUsage = todayUsage st\<rparr>,
           [GetTodayUsageStats]))"

subsection \<open>The hook useBlockingService (TypeScript)\<close>

text \<open>
  What one evaluation of \<^verbatim>\<open>checkForBlockedApp\<close> reads: whether \<^verbatim>\<open>ForegroundAppModule\<close> is
  there (it is \<^verbatim>\<open>null\<close> when the TurboModule is not registered), the selection list and the
  limit object captured by the closure, the outcome of the native usage query
  (\<^const>\<open>None\<close> when \<^verbatim>\<open>UsageStatsModule\<close> is \<^verbatim>\<open>null\<close>), and the answers of the foreground
  query. The loop may await \<^verbatim>\<open>getCurrentForegroundApp\<close> several times; \<open>foreground env n\<close>
  is the outcome of the call made after \<open>n\<close> earlier ones.
\<close>

record js_env =
  foregroundAppModule :: bool
  selectedApps :: "SelectedApp list"
  limits :: limits_map
  usageStatsModule :: "(exn + UsageStat list) option"
  foreground :: "nat \<Rightarrow> exn + SelectedApp option"

text \<open>
  \<^verbatim>\<open>selectedApps.some((app) => { const limit = limits[app.packageName];
  return limit !== undefined && limit > 0; })\<close>
\<close>

definition hasActiveLimits :: "SelectedApp list \<Rightarrow> limits_map \<Rightarrow> bool" where
  "hasActiveLimits apps lims =
     list_ex (\<lambda>app. case lims (packageName app) of None \<Rightarrow> False | Some limit \<Rightarrow> limit > 0) apps"

text \<open>\<^verbatim>\<open>currentUsage[app.packageName] || 0\<close>\<close>

definition usageOrZero :: "(string \<rightharpoonup> int) \<Rightarrow> string \<Rightarrow> int" where
  "usageOrZero currentUsage pkg = (case currentUsage pkg of None \<Rightarrow> 0 | Some u \<Rightarrow> u)"

text \<open>\<^verbatim>\<open>foregroundApp?.packageName === app.packageName || !foregroundApp\<close>\<close>

definition foregroundMatches :: "SelectedApp option \<Rightarrow> string \<Rightarrow> bool" where
  "foregroundMatches foregroundApp pkg =
     (case foregroundApp of None \<Rightarrow> True | Some f \<Rightarrow> packageName f = pkg)"

text \<open>
  The \<^verbatim>\<open>for (const app of selectedApps)\<close> loop of \<^verbatim>\<open>checkForBlockedApp\<close>, with the
  statement that follows it (\<^verbatim>\<open>setBlockedApp(null)\<close>) and the \<^verbatim>\<open>catch\<close> of the enclosing
  \<^verbatim>\<open>try\<close>, which is where a rejected foreground query ends up. \<^verbatim>\<open>!limitMs || limitMs === 0\<close>
  is true for \<^verbatim>\<open>undefined\<close> and for \<open>0\<close>. The counter \<open>n\<close> is the number of foreground
  queries made so far.
\<close>

fun scanSelectedApps ::
  "limits_map \<Rightarrow> (string \<rightharpoonup> int) \<Rightarrow> (nat \<Rightarrow> exn + SelectedApp option) \<Rightarrow> nat \<Rightarrow>
   SelectedApp list \<Rightarrow> js_event list" where
  "scanSelectedApps lims currentUsage fg n [] = [SetBlockedApp None]"
| "scanSelectedApps lims currentUsage fg n (app # rest) =
     (case lims (packageName app) of
        None \<Rightarrow> scanSelectedApps lims currentUsage fg n rest
      | Some limit_ms \<Rightarrow>
          if limit_ms = 0 then scanSelectedApps lims currentUsage fg n rest
          else if usageOrZero currentUsage (packageName app) \<ge> limit_ms then
            GetCurrentForegroundApp #
            (case fg n of
               Inl e \<Rightarrow> [ConsoleError ''BlockingService: Error checking for blocked app:'']
             | Inr foregroundApp \<Rightarrow>
                 if foregroundMatches foregroundApp (packageName app) then
                   [SetBlockedApp (Some \<lparr>packageName = packageName app, appName = appName app,
                      usageMs = usageOrZero currentUsage (packageName app),
                      limitMs = limit_ms\<rparr>)]
                 else scanSelectedApps lims currentUsage fg (Suc n) rest)
          else scanSelectedApps lims currentUsage fg n rest)"

definition checkForBlockedApp :: "js_env \<Rightarrow> usage_store \<Rightarrow> usage_store \<times> js_event list" where
  "checkForBlockedApp env st =
     (if \<not> foregroundAppModule env then (st, [])
      else if \<not> hasActiveLimits (selectedApps env) (limits env) then (st, [SetBlockedApp None])
      else
        let (st', refreshed) = refreshUsage (usageStatsModule env) st
        in (st', refreshed @
              scanSelectedApps (limits env) (todayUsage st') (foreground env) 0 (selectedApps env)))"

text \<open>
  The evaluation emits a BlockState for a package when it calls \<^verbatim>\<open>setBlockedApp\<close> with a
  record of that package.
\<close>

definition emitsBlockState :: "js_event list \<Rightarrow> BlockedApp \<Rightarrow> bool" where
  "emitsBlockState evs b = (SetBlockedApp (Some b) \<in> set evs)"

text \<open>
  \<^verbatim>\<open>stopService\<close> and \<^verbatim>\<open>startService\<close> of the hook. \<open>moduleAvailable\<close> says that
  \<^verbatim>\<open>BlockingServiceModule\<close> is not \<^verbatim>\<open>null\<close>; \<open>failed\<close> is the rejection of the native call,
  if it rejects. \<^verbatim>\<open>limitsArray\<close> keeps, in selection order, the selected packages
  whose limit is defined and positive.
\<close>

definition stopService :: "bool \<Rightarrow> exn option \<Rightarrow> js_event list" where
  "stopService moduleAvailable failed =
     (if \<not> moduleAvailable then []
      else case failed of
        Some e \<Rightarrow> [StopBlockingService, ConsoleError ''BlockingService: Error stopping service:'']
      | None \<Rightarrow> [StopBlockingService, SetIsServiceRunning False, SetBlockedApp None])"

definition limitsArray :: "SelectedApp list \<Rightarrow> limits_map \<Rightarrow> (string \<times> int) list" where
  "limitsArray apps lims =
     concat (map (\<lambda>app. case lims (packageName app) of
                           None \<Rightarrow> []
                         | Some limit \<Rightarrow> if limit > 0 then [(packageName app, limit)] else []) apps)"

definition startService ::
  "bool \<Rightarrow> SelectedApp list \<Rightarrow> limits_map \<Rightarrow> exn option \<Rightarrow> exn option \<Rightarrow> js_event list" where
  "startService moduleAvailable apps lims startFailed stopFailed =
     (if \<not> moduleAvailable then [ConsoleError ''BlockingService: Module not available'']
      else if map packageName apps = [] \<or> limitsArray apps lims = []
        then stopService moduleAvailable stopFailed
      else case startFailed of
        Some e \<Rightarrow> [StartBlockingService (map packageName apps) (limitsArray apps lims),
                   ConsoleError ''BlockingService: Error starting service:'',
                   SetIsServiceRunning False]
      | None \<Rightarrow> [StartBlockingService (map packageName apps) (limitsArray apps lims),
                 SetIsServiceRunning True])"

text \<open>
  The effect that runs whenever \<^verbatim>\<open>selectedApps\<close> or \<^verbatim>\<open>limits\<close> change
  (\<^verbatim>\<open>useEffect(..., [selectedApps, limits])\<close>, the one that starts or stops the service).
\<close>

definition serviceEffect ::
  "bool \<Rightarrow> SelectedApp list \<Rightarrow> limits_map \<Rightarrow> exn option \<Rightarrow> exn option \<Rightarrow> js_event list" where
  "serviceEffect moduleAvailable apps lims startFailed stopFailed =
     (if \<not> moduleAvailable then []
      else if hasActiveLimits apps lims
        then startService moduleAvailable apps lims startFailed stopFailed
      else stopService moduleAvailable stopFailed)"

subsection \<open>Android side: what the services read\<close>

text \<open>
  The configuration that \<^verbatim>\<open>BlockingServiceModuleImpl.startBlockingService\<close> leaves in the
  SharedPreferences file \<^verbatim>\<open>blocking_config\<close> is JSON text produced by \<^verbatim>\<open>org.json\<close>, a
  library outside the repository. A stored text is represented by the value it encodes:
  \<open>Encodes v\<close> is the text \<^verbatim>\<open>JSONArray.toString()\<close> / \<^verbatim>\<open>JSONObject.toString()\<close> writes for
  \<open>v\<close> (so \<open>Encodes []\<close> is the text \<^verbatim>\<open>"[]"\<close>), \<open>Malformed\<close> any text the parser rejects.
  An absent key is \<^const>\<open>None\<close>; \<^verbatim>\<open>getString\<close> then returns the default \<^verbatim>\<open>"[]"\<close> or
  \<^verbatim>\<open>"{}"\<close>.
\<close>

datatype 'a json_text = Encodes 'a | Malformed

datatype BlockInfo = BlockInfo (infoAppName: string) (infoUsageMs: int) (infoLimitMs: int)

record prefs =
  stored_selected_apps :: "string list json_text option"
  stored_limits :: "(string \<rightharpoonup> int) json_text option"
  stored_blocked_app :: "(string \<times> BlockInfo) option"

datatype UsageStats = UsageStats (getPackageName: string) (getTotalTimeInForeground: int)

record RunningAppProcessInfo =
  importance :: int
  pkgList :: "string list option"

record AccessibilityEvent =
  eventType :: int
  eventPackageName :: "string option"

definition IMPORTANCE_FOREGROUND :: int where "IMPORTANCE_FOREGROUND = 100"
definition TYPE_WINDOW_STATE_CHANGED :: int where "TYPE_WINDOW_STATE_CHANGED = 32"
definition VERSION_CODES_Q :: int where "VERSION_CODES_Q = 29"

text \<open>
  The state of the device during one tick or one event:
  \<^item> \<open>activityManager\<close>: \<^const>\<open>None\<close> when \<^verbatim>\<open>getSystemService(ACTIVITY_SERVICE)\<close> is
    \<^verbatim>\<open>null\<close>, otherwise the outcome of reading \<^verbatim>\<open>runningAppProcesses\<close> (itself nullable);
  \<^item> \<open>usageStatsManager\<close>: the same for \<^verbatim>\<open>USAGE_STATS_SERVICE\<close> and \<^verbatim>\<open>queryUsageStats\<close>
    over today's window;
  \<^item> \<open>prefsFailure\<close>: the exception, if any, that reading the stored configuration throws;
  \<^item> \<open>applicationLabel\<close>: \<^verbatim>\<open>getApplicationInfo\<close> followed by \<^verbatim>\<open>getApplicationLabel\<close>;
  \<^item> \<open>startActivityFailure\<close>: the exception, if any, that \<^verbatim>\<open>startActivity\<close> throws.
\<close>

record android_env =
  ourPackageName :: string
  sdkInt :: int
  activityManager :: "(exn + RunningAppProcessInfo list option) option"
  appTasks :: nat
  usageStatsManager :: "(exn + UsageStats list option) option"
  prefsFailure :: "exn option"
  applicationLabel :: "string \<Rightarrow> exn + string"
  startActivityFailure :: "exn option"

datatype svc_event =
    GetRunningAppProcesses
  | QueryUsageStats
  | StopSelf
  | PutBlockedApp string BlockInfo
  | RemoveBlockedApp
  | StartMainActivity "string option"
  | PerformGlobalActionBack
  | LogE string

text \<open>
  \<^verbatim>\<open>parseStringArray\<close> and \<^verbatim>\<open>parseLimitsMap\<close>, each with the log line it writes: a parse
  error is caught and logged and yields the empty collection. The default text of an
  absent key parses to the empty collection without an error.
\<close>

definition parseStringArray ::
  "string list json_text option \<Rightarrow> string set \<times> svc_event list" where
  "parseStringArray json =
     (case json of
        None \<Rightarrow> ({}, [])
      | Some Malformed \<Rightarrow> ({}, [LogE ''Error parsing selected apps:''])
      | Some (Encodes xs) \<Rightarrow> (set xs, []))"

definition parseLimitsMap ::
  "(string \<rightharpoonup> int) json_text option \<Rightarrow> (string \<rightharpoonup> int) \<times> svc_event list" where
  "parseLimitsMap json =
     (case json of
        None \<Rightarrow> (Map.empty, [])
      | Some Malformed \<Rightarrow> (Map.empty, [LogE ''Error parsing limits:''])
      | Some (Encodes m) \<Rightarrow> (m, []))"

text \<open>\<^verbatim>\<open>selectedAppsJson == "[]"\<close>, after \<^verbatim>\<open>prefs.getString(KEY_SELECTED_APPS, "[]") ?: "[]"\<close>\<close>

definition selectedAppsJsonIsEmptyArray :: "prefs \<Rightarrow> bool" where
  "selectedAppsJsonIsEmptyArray p =
     (case stored_selected_apps p of None \<Rightarrow> True | Some j \<Rightarrow> j = Encodes [])"

text \<open>
  The loop shared by \<^verbatim>\<open>BlockingService.getForegroundApp\<close> (which passes a test on the
  package) and \<^verbatim>\<open>ForegroundAppModuleImpl.getForegroundAppAndroid10Plus\<close> (which accepts every
  package): the first process of foreground importance whose \<^verbatim>\<open>pkgList?.firstOrNull()\<close> is
  not \<^verbatim>\<open>null\<close> and passes the test.
\<close>

fun firstForegroundPackage ::
  "(string \<Rightarrow> bool) \<Rightarrow> RunningAppProcessInfo list \<Rightarrow> string option" where
  "firstForegroundPackage accept [] = None"
| "firstForegroundPackage accept (processInfo # rest) =
     (if importance processInfo = IMPORTANCE_FOREGROUND then
        (case pkgList processInfo of
           Some (pkg # _) \<Rightarrow>
             if accept pkg then Some pkg else firstForegroundPackage accept rest
         | _ \<Rightarrow> firstForegroundPackage accept rest)
      else firstForegroundPackage accept rest)"

subsection \<open>ForegroundAppModuleImpl (Kotlin)\<close>





subsection \<open>UsageStatsModuleImpl (Kotlin)\<close>

text \<open>
  The capping loop of \<^verbatim>\<open>getTodayUsageStats\<close>: \<^verbatim>\<open>usageStatsMap[stat.packageName] =
  minOf(stat.totalTimeInForeground, maxDailyUsage)\<close> for each entry the OS returns, in
  order. The array handed to JavaScript carries these capped values.
\<close>

definition maxDailyUsage :: int where
  "maxDailyUsage = 24 * 60 * 60 * 1000"

definition usageStatsMap :: "UsageStats list \<Rightarrow> (string \<rightharpoonup> int)" where
  "usageStatsMap stats =
     fold (\<lambda>stat m. m(getPackageName stat \<mapsto> min (getTotalTimeInForeground stat) maxDailyUsage))
       stats Map.empty"

subsection \<open>BlockingService (Kotlin)\<close>

text \<open>
  \<^verbatim>\<open>getForegroundApp\<close>. The cast \<^verbatim>\<open>as ActivityManager\<close> throws on \<^verbatim>\<open>null\<close>; every exception
  is caught, logged and turned into \<^verbatim>\<open>null\<close>. Below Android 10 the function returns
  \<^verbatim>\<open>null\<close> without reading the process list.
\<close>

definition getForegroundApp :: "android_env \<Rightarrow> string option \<times> svc_event list" where
  "getForegroundApp env =
     (case activityManager env of
        None \<Rightarrow> (None, [LogE ''Error getting foreground app:''])
      | Some runningAppProcesses \<Rightarrow>
          if sdkInt env \<ge> VERSION_CODES_Q then
            (case runningAppProcesses of
               Inl e \<Rightarrow> (None, [GetRunningAppProcesses, LogE ''Error getting foreground app:''])
             | Inr None \<Rightarrow> (None, [GetRunningAppProcesses])
             | Inr (Some procs) \<Rightarrow>
                 (firstForegroundPackage (\<lambda>pkg. pkg \<noteq> ourPackageName env) procs,
                  [GetRunningAppProcesses]))
          else (None, []))"

text \<open>
  \<^verbatim>\<open>getCurrentUsage\<close>, the same text in \<^verbatim>\<open>BlockingService\<close> and in
  \<^verbatim>\<open>AppBlockingAccessibilityService\<close>: the \<^verbatim>\<open>totalTimeInForeground\<close> of the first entry for
  the package, \<open>0\<close> when there is none, when a service or the result is \<^verbatim>\<open>null\<close>, and when
  the query throws.
\<close>

definition getCurrentUsage :: "android_env \<Rightarrow> string \<Rightarrow> int \<times> svc_event list" where
  "getCurrentUsage env pkg =
     (case usageStatsManager env of
        None \<Rightarrow> (0, [])
      | Some (Inl e) \<Rightarrow> (0, [QueryUsageStats, LogE ''Error getting current usage:''])
      | Some (Inr None) \<Rightarrow> (0, [QueryUsageStats])
      | Some (Inr (Some stats)) \<Rightarrow>
          (case find (\<lambda>it. getPackageName it = pkg) stats of
             None \<Rightarrow> (0, [QueryUsageStats])
           | Some appStat \<Rightarrow> (getTotalTimeInForeground appStat, [QueryUsageStats])))"

text \<open>\<^verbatim>\<open>packageName.substringAfterLast(".")\<close>: the whole string when it has no dot.\<close>

definition substringAfterLast :: "char \<Rightarrow> string \<Rightarrow> string" where
  "substringAfterLast delimiter s = rev (takeWhile (\<lambda>c. c \<noteq> delimiter) (rev s))"

text \<open>
  \<^verbatim>\<open>BlockingService.shouldBlockApp\<close>: \<^verbatim>\<open>null\<close> when the package is not selected, has no
  limit or a limit \<open>\<le> 0\<close>, or when reading the configuration throws; otherwise the pair of
  the verdict \<^verbatim>\<open>usageMs >= limitMs\<close> and the \<^verbatim>\<open>BlockInfo\<close>.
\<close>

definition shouldBlockApp ::
  "android_env \<Rightarrow> prefs \<Rightarrow> string \<Rightarrow> (bool \<times> BlockInfo) option \<times> svc_event list" where
  "shouldBlockApp env p pkg =
     (case prefsFailure env of
        Some e \<Rightarrow> (None, [LogE ''Error checking if should block:''])
      | None \<Rightarrow>
          let (selected, selectedLog) = parseStringArray (stored_selected_apps p);
              (lims, limitsLog) = parseLimitsMap (stored_limits p)
          in if pkg \<notin> selected then (None, selectedLog @ limitsLog)
             else (case lims pkg of
                     None \<Rightarrow> (None, selectedLog @ limitsLog)
                   | Some limit_ms \<Rightarrow>
                       if limit_ms \<le> 0 then (None, selectedLog @ limitsLog)
                       else
                         let (usage_ms, queried) = getCurrentUsage env pkg;
                             app_name = (case applicationLabel env pkg of
                                           Inr label \<Rightarrow> label
                                         | Inl e \<Rightarrow> substringAfterLast (CHR ''.'') pkg)
                         in (Some (usage_ms \<ge> limit_ms, BlockInfo app_name usage_ms limit_ms),
                             selectedLog @ limitsLog @ queried)))"

definition bringAppToForeground :: "android_env \<Rightarrow> svc_event list" where
  "bringAppToForeground env =
     (case startActivityFailure env of
        None \<Rightarrow> [StartMainActivity None]
      | Some e \<Rightarrow> [StartMainActivity None, LogE ''Error bringing app to foreground:''])"

text \<open>
  One run of the scheduled task, \<^verbatim>\<open>checkAndBlock\<close>. It returns the preferences as it leaves
  them (only the \<^verbatim>\<open>blocked_*\<close> keys are written) and the events of the run.
\<close>

definition checkAndBlock :: "android_env \<Rightarrow> prefs \<Rightarrow> prefs \<times> svc_event list" where
  "checkAndBlock env p =
     (case prefsFailure env of
        Some e \<Rightarrow> (p, [LogE ''Error in checkAndBlock:''])
      | None \<Rightarrow>
          if selectedAppsJsonIsEmptyArray p then (p, [StopSelf])
          else
            let (foregroundApp, asked) = getForegroundApp env
            in (case foregroundApp of
                  None \<Rightarrow> (p, asked)
                | Some fg \<Rightarrow>
                    if fg = ourPackageName env then (p, asked)
                    else
                      let (blockResult, checked) = shouldBlockApp env p fg
                      in (case blockResult of
                            None \<Rightarrow> (p, asked @ checked)
                          | Some (shouldBlock, info) \<Rightarrow>
                              if shouldBlock then
                                (p\<lparr>stored_blocked_app := Some (fg, info)\<rparr>,
                                 asked @ checked @ [PutBlockedApp fg info] @
                                 bringAppToForeground env)
                              else
                                (p\<lparr>stored_blocked_app := None\<rparr>,
                                 asked @ checked @ [RemoveBlockedApp]))))"

subsection \<open>AppBlockingAccessibilityService (Kotlin)\<close>

definition shouldBlockApp_accessibility ::
  "android_env \<Rightarrow> prefs \<Rightarrow> string \<Rightarrow> bool \<times> svc_event list" where
  "shouldBlockApp_accessibility env p pkg =
     (case prefsFailure env of
        Some e \<Rightarrow> (False, [LogE ''Error checking if should block:''])
      | None \<Rightarrow>
          let (selected, selectedLog) = parseStringArray (stored_selected_apps p);
              (lims, limitsLog) = parseLimitsMap (stored_limits p)
          in if pkg \<notin> selected then (False, selectedLog @ limitsLog)
             else (case lims pkg of
                     None \<Rightarrow> (False, selectedLog @ limitsLog)
                   | Some limit_ms \<Rightarrow>
                       if limit_ms \<le> 0 then (False, selectedLog @ limitsLog)
                       else
                         let (usage_ms, queried) = getCurrentUsage env pkg
                         in (usage_ms \<ge> limit_ms, selectedLog @ limitsLog @ queried)))"

definition blockApp :: "android_env \<Rightarrow> string \<Rightarrow> svc_event list" where
  "blockApp env pkg =
     (case startActivityFailure env of
        None \<Rightarrow> [StartMainActivity (Some pkg), PerformGlobalActionBack]
      | Some e \<Rightarrow> [StartMainActivity (Some pkg), LogE ''Error blocking app:''])"

definition onAccessibilityEvent ::
  "android_env \<Rightarrow> prefs \<Rightarrow> AccessibilityEvent option \<Rightarrow> svc_event list" where
  "onAccessibilityEvent env p event =
     (case event of
        None \<Rightarrow> []
      | Some ev \<Rightarrow>
          if eventType ev = TYPE_WINDOW_STATE_CHANGED then
            (case eventPackageName ev of
               None \<Rightarrow> []
             | Some pkg \<Rightarrow>
                 if pkg = ourPackageName env then []
                 else
                   let (block, checked) = shouldBlockApp_accessibility env p pkg
                   in if block then checked @ blockApp env pkg else checked)
          else [])"

text \<open>A block is issued when the host activity is started over the offending app.\<close>

definition issuesBlock :: "svc_event list \<Rightarrow> bool" where
  "issuesBlock evs = list_ex (\<lambda>e. case e of StartMainActivity _ \<Rightarrow> True | _ \<Rightarrow> False) evs"

definition issuesQuery :: "svc_event list \<Rightarrow> bool" where
  "issuesQuery evs = (GetRunningAppProcesses \<in> set evs \<or> QueryUsageStats \<in> set evs)"

subsection \<open>BlockingServiceModuleImpl (Kotlin) and the service life cycle\<close>

text \<open>
  The device as the hook's native calls change it: the stored configuration and whether
  the scheduled task of \<^verbatim>\<open>BlockingService\<close> is alive (\<^verbatim>\<open>checkTask != null\<close>).
  \<^verbatim>\<open>startBlockingService\<close> rewrites the two configuration keys (\<^verbatim>\<open>JSONObject.put\<close> keeps the
  last value given for a key) and starts the service, whose \<^verbatim>\<open>ACTION_START\<close> branch starts
  the task. \<^verbatim>\<open>stopBlockingService\<close> stops the service, whose \<^verbatim>\<open>onDestroy\<close> cancels the task;
  it writes nothing. A limit is stored as \<^verbatim>\<open>limitMap.getDouble("limitMs").toLong()\<close>: on
  the integral values of this model the conversion changes a value only by saturating it
  at the bounds of \<^verbatim>\<open>Long\<close>.
\<close>

definition toLong :: "int \<Rightarrow> int" where
  "toLong d = max (- 9223372036854775808) (min d 9223372036854775807)"

record device =
  config :: prefs
  monitoring :: bool

definition startBlockingService :: "string list \<Rightarrow> (string \<times> int) list \<Rightarrow> device \<Rightarrow> device" where
  "startBlockingService apps lims d =
     \<lparr>config = (config d)\<lparr>stored_selected_apps := Some (Encodes apps),
                          stored_limits :=
                            Some (Encodes (map_of (rev (map (\<lambda>(pkg, limit_ms).
                              (pkg, toLong limit_ms)) lims))))\<rparr>,
      monitoring = True\<rparr>"

definition stopBlockingService :: "device \<Rightarrow> device" where
  "stopBlockingService d = d\<lparr>monitoring := False\<rparr>"

text \<open>The native calls among the events of the hook, applied to the device in order.\<close>

fun deliver :: "js_event list \<Rightarrow> device \<Rightarrow> device" where
  "deliver [] d = d"
| "deliver (StartBlockingService apps lims # evs) d = deliver evs (startBlockingService apps lims d)"
| "deliver (StopBlockingService # evs) d = deliver evs (stopBlockingService d)"
| "deliver (_ # evs) d = deliver evs d"

subsection \<open>Scenarios\<close>

text \<open>
  A foreground query that gives the same answer however often it is asked during one
  evaluation.
\<close>

definition always :: "'a \<Rightarrow> nat \<Rightarrow> 'a" where
  "always answer n = answer"

text \<open>
  The scenario of the specification: one selected package \<^verbatim>\<open>com.x\<close> with limit \<open>L\<close>, for
  which the OS reports the usage \<open>u\<close>; the host application is \<^verbatim>\<open>com.dailyfocus\<close>.
\<close>

definition appX :: SelectedApp where
  "appX = \<lparr>packageName = ''com.x'', appName = ''X''\<rparr>"

definition emptyStore :: usage_store where
  "emptyStore = \<lparr>todayUsage = Map.empty, yesterdayUsage = Map.empty\<rparr>"

definition scenarioJs :: "int \<Rightarrow> int \<Rightarrow> (exn + SelectedApp option) \<Rightarrow> js_env" where
  "scenarioJs L u answer =
     \<lparr>foregroundAppModule = True,
      selectedApps = [appX], limits = Map.empty(''com.x'' \<mapsto> L),
      usageStatsModule =
        Some (Inr [\<lparr>packageName = ''com.x'', appName = ''X'', totalTimeInForeground = u\<rparr>]),
      foreground = always answer\<rparr>"

definition scenarioPrefs :: "int \<Rightarrow> prefs" where
  "scenarioPrefs L =
     \<lparr>stored_selected_apps = Some (Encodes [''com.x'']),
      stored_limits = Some (Encodes (Map.empty(''com.x'' \<mapsto> L))),
      stored_blocked_app = None\<rparr>"

definition scenarioAndroid :: "string \<Rightarrow> int \<Rightarrow> android_env" where
  "scenarioAndroid front u =
     \<lparr>ourPackageName = ''com.dailyfocus'', sdkInt = 34,
      activityManager = Some (Inr (Some [\<lparr>importance = 100, pkgList = Some [front]\<rparr>])),
      appTasks = 1,
      usageStatsManager = Some (Inr (Some [UsageStats ''com.x'' u])),
      prefsFailure = None,
      applicationLabel = (\<lambda>pkg. Inr ''X''),
      startActivityFailure = None\<rparr>"

lemmas scenario_defs =
  appX_def emptyStore_def scenarioJs_def scenarioPrefs_def scenarioAndroid_def always_def

subsection \<open>The contract of the policy, in the words of the specification\<close>

text \<open>
  A limited package (limit \<open>> 0\<close>) whose usage has met or exceeded its limit and that
  matches the foreground identity, or any such package when the foreground identity is
  unknown; \<open>firstBlocked\<close> is the BlockState of the first one in the selection list.
\<close>

definition meetsBlockConditions ::
  "limits_map \<Rightarrow> (string \<rightharpoonup> int) \<Rightarrow> SelectedApp option \<Rightarrow> SelectedApp \<Rightarrow> bool" where
  "meetsBlockConditions lims currentUsage foregroundApp app =
     (case lims (packageName app) of
        None \<Rightarrow> False
      | Some limit \<Rightarrow>
          0 < limit \<and> limit \<le> usageOrZero currentUsage (packageName app) \<and>
          (case foregroundApp of None \<Rightarrow> True | Some f \<Rightarrow> packageName f = packageName app))"

definition firstBlocked ::
  "limits_map \<Rightarrow> (string \<rightharpoonup> int) \<Rightarrow> SelectedApp option \<Rightarrow> SelectedApp list \<Rightarrow>
   BlockedApp option" where
  "firstBlocked lims currentUsage foregroundApp apps =
     (case find (meetsBlockConditions lims currentUsage foregroundApp) apps of
        None \<Rightarrow> None
      | Some app \<Rightarrow>
          (case lims (packageName app) of
             None \<Rightarrow> None
           | Some limit \<Rightarrow>
               Some \<lparr>packageName = packageName app, appName = appName app,
                     usageMs = usageOrZero currentUsage (packageName app), limitMs = limit\<rparr>))"

text \<open>The arguments of the calls of \<^verbatim>\<open>setBlockedApp\<close> among the events, in order.\<close>

fun setBlockedAppCalls :: "js_event list \<Rightarrow> BlockedApp option list" where
  "setBlockedAppCalls [] = []"
| "setBlockedAppCalls (SetBlockedApp x # evs) = x # setBlockedAppCalls evs"
| "setBlockedAppCalls (_ # evs) = setBlockedAppCalls evs"


definition appY :: SelectedApp where
  "appY = \<lparr>packageName = ''com.y'', appName = ''Y''\<rparr>"

definition scenarioJs2 ::
  "int \<Rightarrow> int \<Rightarrow> int \<Rightarrow> int \<Rightarrow> (exn + SelectedApp option) \<Rightarrow> js_env" where
  "scenarioJs2 LX uX LY uY answer =
     \<lparr>foregroundAppModule = True,
      selectedApps = [appX, appY],
      limits = Map.empty(''com.x'' \<mapsto> LX, ''com.y'' \<mapsto> LY),
      usageStatsModule =
        Some (Inr [\<lparr>packageName = ''com.x'', appName = ''X'', totalTimeInForeground = uX\<rparr>,
                   \<lparr>packageName = ''com.y'', appName = ''Y'', totalTimeInForeground = uY\<rparr>]),
      foreground = always answer\<rparr>"

lemmas scenario2_defs = appY_def scenarioJs2_def

lemmas js_eval = checkForBlockedApp_def hasActiveLimits_def refreshUsage_def
      usageArrayToMap_def usageOrZero_def foregroundMatches_def emitsBlockState_def

lemmas android_eval = checkAndBlock_def selectedAppsJsonIsEmptyArray_def getForegroundApp_def
  VERSION_CODES_Q_def IMPORTANCE_FOREGROUND_def shouldBlockApp_def parseStringArray_def
  parseLimitsMap_def getCurrentUsage_def bringAppToForeground_def toLong_def
  shouldBlockApp_accessibility_def blockApp_def onAccessibilityEvent_def
  TYPE_WINDOW_STATE_CHANGED_def

subsection \<open>Further scenarios\<close>

text \<open>The number of foreground queries among the events of an evaluation.\<close>

definition foregroundQueries :: "js_event list \<Rightarrow> nat" where
  "foregroundQueries evs = length (filter (\<lambda>e. e = GetCurrentForegroundApp) evs)"

text \<open>
  A device on which the service was never started, an accessibility event for a window
  of a package, and a usage store that still holds the usage \<open>u\<close> of \<^verbatim>\<open>com.x\<close> from an
  earlier refresh.
\<close>

definition freshDevice :: device where
  "freshDevice =
     \<lparr>config = \<lparr>stored_selected_apps = None, stored_limits = None, stored_blocked_app = None\<rparr>,
      monitoring = False\<rparr>"

definition windowChanged :: "string \<Rightarrow> AccessibilityEvent" where
  "windowChanged pkg = \<lparr>eventType = 32, eventPackageName = Some pkg\<rparr>"

definition cachedStore :: "int \<Rightarrow> usage_store" where
  "cachedStore u = \<lparr>todayUsage = Map.empty(''com.x'' \<mapsto> u), yesterdayUsage = Map.empty\<rparr>"

lemmas scenario3_defs = freshDevice_def windowChanged_def cachedStore_def




section \<open>Auxiliary facts\<close>

subsection \<open>The loop of the hook\<close>

lemma scan_emits_sound:
  "SetBlockedApp (Some b) \<in> set (scanSelectedApps lims cur fg n apps) \<Longrightarrow>
   (\<exists>app \<in> set apps. packageName app = packageName b \<and> appName app = appName b) \<and>
   lims (packageName b) = Some (limitMs b) \<and> limitMs b \<noteq> 0 \<and>
   usageMs b = usageOrZero cur (packageName b) \<and> limitMs b \<le> usageMs b \<and>
   (\<exists>k foregroundApp. fg k = Inr foregroundApp \<and> foregroundMatches foregroundApp (packageName b))"
proof (induction apps arbitrary: n)
  case Nil
  then show ?case by simp
next
  case (Cons app rest)
  show ?case
  proof (cases "lims (packageName app)")
    case None
    with Cons.prems
    have "SetBlockedApp (Some b) \<in> set (scanSelectedApps lims cur fg n rest)" by simp
    from Cons.IH [OF this] show ?thesis by auto
  next
    case (Some l)
    show ?thesis
    proof (cases "l \<noteq> 0 \<and> l \<le> usageOrZero cur (packageName app)")
      case False
      with Some Cons.prems
      have "SetBlockedApp (Some b) \<in> set (scanSelectedApps lims cur fg n rest)"
        by (auto split: if_splits)
      from Cons.IH [OF this] show ?thesis by auto
    next
      case over: True
      show ?thesis
      proof (cases "fg n")
        case (Inl e)
        with Some over Cons.prems show ?thesis by simp
      next
        case (Inr foregroundApp)
        show ?thesis
        proof (cases "foregroundMatches foregroundApp (packageName app)")
          case True
          with Some over Inr Cons.prems
          have b: "b = \<lparr>packageName = packageName app, appName = appName app,
                      usageMs = usageOrZero cur (packageName app), limitMs = l\<rparr>"
            by simp
          with Some over Inr True show ?thesis by auto
        next
          case False
          with Some over Inr Cons.prems
          have "SetBlockedApp (Some b) \<in> set (scanSelectedApps lims cur fg (Suc n) rest)"
            by simp
          from Cons.IH [OF this] show ?thesis by auto
        qed
      qed
    qed
  qed
qed

lemma refreshUsage_no_block:
  "SetBlockedApp x \<notin> set (snd (refreshUsage m st))"
  by (auto simp: refreshUsage_def split: option.splits sum.splits)

lemma check_emits_scan:
  assumes "emitsBlockState (snd (checkForBlockedApp env st)) b"
  shows "foregroundAppModule env \<and> hasActiveLimits (selectedApps env) (limits env) \<and>
         SetBlockedApp (Some b) \<in> set (scanSelectedApps (limits env)
            (todayUsage (fst (checkForBlockedApp env st))) (foreground env) 0 (selectedApps env))"
  using assms refreshUsage_no_block [of "Some b" "usageStatsModule env" st]
  by (auto simp: checkForBlockedApp_def emitsBlockState_def Let_def split: if_splits prod.splits)

lemma scan_emits_foreground:
  assumes fg: "\<forall>k. \<exists>f. fg k = Inr (Some f) \<and> packageName f = p"
    and lim: "lims p = Some L" "L \<noteq> 0" "L \<le> usageOrZero cur p"
  shows "app \<in> set apps \<Longrightarrow> packageName app = p \<Longrightarrow>
     \<exists>a. SetBlockedApp (Some \<lparr>packageName = p, appName = a,
            usageMs = usageOrZero cur p, limitMs = L\<rparr>)
          \<in> set (scanSelectedApps lims cur fg n apps)"
proof (induction apps arbitrary: n)
  case Nil
  then show ?case by simp
next
  case (Cons x rest)
  from fg obtain f where f: "fg n = Inr (Some f)" "packageName f = p" by blast
  show ?case
  proof (cases "packageName x = p")
    case True
    with lim f show ?thesis by (auto simp: foregroundMatches_def)
  next
    case False
    with Cons.prems have "app \<in> set rest" by auto
    from Cons.IH [OF this Cons.prems(2)] have
      ih: "\<And>m. \<exists>a. SetBlockedApp (Some \<lparr>packageName = p, appName = a,
            usageMs = usageOrZero cur p, limitMs = L\<rparr>)
          \<in> set (scanSelectedApps lims cur fg m rest)" .
    from False f have nomatch: "\<not> foregroundMatches (Some f) (packageName x)"
      by (simp add: foregroundMatches_def)
    show ?thesis using ih [of n] ih [of "Suc n"] f nomatch
      by (auto split: option.splits)
  qed
qed

lemma hasActiveLimits_I:
  "app \<in> set apps \<Longrightarrow> lims (packageName app) = Some L \<Longrightarrow> 0 < L \<Longrightarrow> hasActiveLimits apps lims"
  by (auto simp: hasActiveLimits_def list_ex_iff intro!: bexI [of _ app])

lemma check_events_active:
  "foregroundAppModule env \<Longrightarrow> hasActiveLimits (selectedApps env) (limits env) \<Longrightarrow>
   snd (checkForBlockedApp env st) =
     snd (refreshUsage (usageStatsModule env) st) @
     scanSelectedApps (limits env) (todayUsage (fst (checkForBlockedApp env st)))
       (foreground env) 0 (selectedApps env)"
  by (simp add: checkForBlockedApp_def Let_def split: prod.splits)

lemma js_block_iff_usage:
  assumes "foregroundAppModule env"
    and "app \<in> set (selectedApps env)" "packageName app = p"
    and "limits env p = Some L" "0 < L"
    and "\<forall>k. \<exists>f. foreground env k = Inr (Some f) \<and> packageName f = p"
    and "usageOrZero (todayUsage (fst (checkForBlockedApp env st))) p = u"
  shows "((\<exists>b. emitsBlockState (snd (checkForBlockedApp env st)) b \<and> packageName b = p) \<longleftrightarrow> L \<le> u) \<and>
         (\<forall>b. emitsBlockState (snd (checkForBlockedApp env st)) b \<and> packageName b = p \<longrightarrow>
              usageMs b = u \<and> limitMs b = L)"
proof -
  let ?ev = "snd (checkForBlockedApp env st)"
  let ?cur = "todayUsage (fst (checkForBlockedApp env st))"
  have act: "hasActiveLimits (selectedApps env) (limits env)"
    using assms(2-5) by (auto intro: hasActiveLimits_I)
  have sound: "usageMs b = u \<and> limitMs b = L \<and> L \<le> u"
    if "emitsBlockState ?ev b" "packageName b = p" for b
  proof -
    from check_emits_scan [OF that(1)] have
      "SetBlockedApp (Some b) \<in> set (scanSelectedApps (limits env) ?cur (foreground env) 0 (selectedApps env))"
      by simp
    from scan_emits_sound [OF this] that(2) assms(4,7) show ?thesis by auto
  qed
  have complete: "\<exists>b. emitsBlockState ?ev b \<and> packageName b = p" if "L \<le> u"
  proof -
    from assms(5) have "L \<noteq> 0" by simp
    with scan_emits_foreground [where fg = "foreground env" and p = p and lims = "limits env"
        and L = L and cur = ?cur and app = app and apps = "selectedApps env" and n = 0]
      that assms(2,3,4,6,7)
    obtain a where "SetBlockedApp (Some \<lparr>packageName = p, appName = a,
            usageMs = usageOrZero ?cur p, limitMs = L\<rparr>)
          \<in> set (scanSelectedApps (limits env) ?cur (foreground env) 0 (selectedApps env))"
      by auto
    then have "emitsBlockState ?ev \<lparr>packageName = p, appName = a,
            usageMs = usageOrZero ?cur p, limitMs = L\<rparr>"
      using check_events_active [OF assms(1) act, of st] by (simp add: emitsBlockState_def)
    then show ?thesis by (intro exI conjI) (assumption, simp)
  qed
  from sound complete show ?thesis by blast
qed

subsection \<open>The services\<close>

lemma firstForegroundPackage_accept:
  "firstForegroundPackage accept procs = Some pkg \<Longrightarrow> accept pkg"
  by (induction procs) (auto split: if_splits option.splits list.splits)

lemma getForegroundApp_not_own:
  "fst (getForegroundApp env) \<noteq> Some (ourPackageName env)"
  by (auto simp: getForegroundApp_def split: option.splits sum.splits if_splits
      dest: firstForegroundPackage_accept)

lemma getForegroundApp_no_block:
  "\<not> issuesBlock (snd (getForegroundApp env))"
  by (auto simp: getForegroundApp_def issuesBlock_def split: option.splits sum.splits)

lemma getCurrentUsage_no_block:
  "\<not> issuesBlock (snd (getCurrentUsage env pkg))"
  by (auto simp: getCurrentUsage_def issuesBlock_def split: option.splits sum.splits)

lemma issuesBlock_append [simp]:
  "issuesBlock (xs @ ys) \<longleftrightarrow> issuesBlock xs \<or> issuesBlock ys"
  by (simp add: issuesBlock_def)

lemma issuesBlock_bring [simp]: "issuesBlock (bringAppToForeground env)"
  by (simp add: bringAppToForeground_def issuesBlock_def split: option.splits)

lemma issuesBlock_simps [simp]:
  "\<not> issuesBlock []"
  "issuesBlock (StartMainActivity x # evs)"
  "issuesBlock (PutBlockedApp a i # evs) = issuesBlock evs"
  "issuesBlock (RemoveBlockedApp # evs) = issuesBlock evs"
  "issuesBlock (LogE m # evs) = issuesBlock evs"
  "issuesBlock (StopSelf # evs) = issuesBlock evs"
  "issuesBlock (QueryUsageStats # evs) = issuesBlock evs"
  "issuesBlock (GetRunningAppProcesses # evs) = issuesBlock evs"
  "issuesBlock (PerformGlobalActionBack # evs) = issuesBlock evs"
  by (simp_all add: issuesBlock_def)

lemma parseStringArray_member_no_log:
  "pkg \<in> fst (parseStringArray json) \<Longrightarrow> snd (parseStringArray json) = []"
  by (auto simp: parseStringArray_def split: option.splits json_text.splits)

lemma parseLimitsMap_entry_no_log:
  "fst (parseLimitsMap json) pkg = Some L \<Longrightarrow> snd (parseLimitsMap json) = []"
  by (auto simp: parseLimitsMap_def split: option.splits json_text.splits)

lemma parse_logs_only:
  "e \<in> set (snd (parseStringArray selectedJson) @ snd (parseLimitsMap limitsJson)) \<Longrightarrow>
   \<exists>m. e = LogE m"
  by (auto simp: parseStringArray_def parseLimitsMap_def split: option.splits json_text.splits)

lemma shouldBlockApp_limited:
  assumes "prefsFailure env = None" "pkg \<in> fst (parseStringArray (stored_selected_apps p))"
    "fst (parseLimitsMap (stored_limits p)) pkg = Some L" "0 < L"
  shows "\<exists>name. shouldBlockApp env p pkg =
           (Some (L \<le> fst (getCurrentUsage env pkg),
                  BlockInfo name (fst (getCurrentUsage env pkg)) L),
            snd (getCurrentUsage env pkg))"
  using assms parseStringArray_member_no_log [OF assms(2)] parseLimitsMap_entry_no_log [OF assms(3)]
  by (simp add: shouldBlockApp_def Let_def case_prod_beta)

lemma shouldBlockApp_null_unless_limited:
  "\<not> (prefsFailure env = None \<and> pkg \<in> fst (parseStringArray (stored_selected_apps p)) \<and>
      (\<exists>L. fst (parseLimitsMap (stored_limits p)) pkg = Some L \<and> 0 < L)) \<Longrightarrow>
   fst (shouldBlockApp env p pkg) = None"
  by (auto simp: shouldBlockApp_def Let_def case_prod_beta split: option.splits)

lemma shouldBlockApp_cases:
  "fst (shouldBlockApp env p pkg) = None \<or>
   (\<exists>L name. 0 < L \<and> shouldBlockApp env p pkg =
      (Some (L \<le> fst (getCurrentUsage env pkg),
             BlockInfo name (fst (getCurrentUsage env pkg)) L),
       snd (getCurrentUsage env pkg)))"
proof (cases "prefsFailure env = None \<and> pkg \<in> fst (parseStringArray (stored_selected_apps p)) \<and>
      (\<exists>L. fst (parseLimitsMap (stored_limits p)) pkg = Some L \<and> 0 < L)")
  case True
  then obtain L where "prefsFailure env = None"
    "pkg \<in> fst (parseStringArray (stored_selected_apps p))"
    "fst (parseLimitsMap (stored_limits p)) pkg = Some L" "0 < L" by blast
  from shouldBlockApp_limited [OF this] \<open>0 < L\<close> show ?thesis by blast
next
  case False
  from shouldBlockApp_null_unless_limited [OF this] show ?thesis ..
qed

lemma shouldBlockApp_null_logs_only:
  assumes "fst (shouldBlockApp aenv cfg pkg) = None" "e \<in> set (snd (shouldBlockApp aenv cfg pkg))"
  shows "\<exists>m. e = LogE m"
proof (cases "prefsFailure aenv")
  case (Some x)
  with assms show ?thesis by (simp add: shouldBlockApp_def)
next
  case None
  with assms have "e \<in> set (snd (parseStringArray (stored_selected_apps cfg)) @
                        snd (parseLimitsMap (stored_limits cfg)))"
    by (auto simp: shouldBlockApp_def Let_def case_prod_beta split: option.splits if_splits)
  then show ?thesis by (rule parse_logs_only)
qed

lemma selected_nonempty:
  "pkg \<in> fst (parseStringArray (stored_selected_apps p)) \<Longrightarrow> \<not> selectedAppsJsonIsEmptyArray p"
  by (auto simp: parseStringArray_def selectedAppsJsonIsEmptyArray_def
      split: option.splits json_text.splits)

lemma service_block_iff_usage:
  assumes "prefsFailure env = None" "fst (getForegroundApp env) = Some pkg"
    "pkg \<in> fst (parseStringArray (stored_selected_apps p))"
    "fst (parseLimitsMap (stored_limits p)) pkg = Some L" "0 < L"
    "fst (getCurrentUsage env pkg) = u"
  shows "(issuesBlock (snd (checkAndBlock env p)) \<longleftrightarrow> L \<le> u) \<and>
         (L \<le> u \<longrightarrow> (\<exists>name. stored_blocked_app (fst (checkAndBlock env p)) = Some (pkg, BlockInfo name u L) \<and>
             PutBlockedApp pkg (BlockInfo name u L) \<in> set (snd (checkAndBlock env p))))"
proof -
  from shouldBlockApp_limited [OF assms(1,3,4,5)] assms(6)
  obtain name where sb: "shouldBlockApp env p pkg =
     (Some (L \<le> u, BlockInfo name u L), snd (getCurrentUsage env pkg))" by auto
  from assms(2) getForegroundApp_not_own [of env] have own: "pkg \<noteq> ourPackageName env" by auto
  obtain asked where fg: "getForegroundApp env = (Some pkg, asked)"
    using assms(2) by (cases "getForegroundApp env") auto
  have nb: "\<not> issuesBlock asked" using getForegroundApp_no_block [of env] fg by simp
  show ?thesis
    using assms(1) selected_nonempty [OF assms(3)] fg sb own nb getCurrentUsage_no_block [of env pkg]
    by (auto simp: checkAndBlock_def)
qed

lemma setBlockedAppCalls_append [simp]:
  "setBlockedAppCalls (xs @ ys) = setBlockedAppCalls xs @ setBlockedAppCalls ys"
  by (induction xs rule: setBlockedAppCalls.induct) simp_all

lemma setBlockedAppCalls_refresh [simp]:
  "setBlockedAppCalls (snd (refreshUsage m st)) = []"
  by (simp add: refreshUsage_def split: option.splits sum.splits)

lemma scan_stable_foreground:
  assumes fg: "\<forall>k. fg k = Inr foregroundApp"
    and nonneg: "\<forall>q l. lims q = Some l \<longrightarrow> 0 \<le> l"
  shows "setBlockedAppCalls (scanSelectedApps lims cur fg n apps) =
           [firstBlocked lims cur foregroundApp apps]"
proof (induction apps arbitrary: n)
  case Nil
  show ?case by (simp add: firstBlocked_def)
next
  case (Cons app rest)
  have fgn: "fg n = Inr foregroundApp" using fg by simp
  show ?case
  proof (cases "lims (packageName app)")
    case None
    then show ?thesis using Cons [of n]
      by (simp add: firstBlocked_def meetsBlockConditions_def)
  next
    case (Some l)
    with nonneg have "0 \<le> l" by blast
    with Some fgn show ?thesis using Cons [of n] Cons [of "Suc n"]
      by (auto simp: firstBlocked_def meetsBlockConditions_def foregroundMatches_def
          split: option.splits)
  qed
qed

lemma no_active_limits_none:
  "\<not> hasActiveLimits apps lims \<Longrightarrow> firstBlocked lims cur foregroundApp apps = None"
proof -
  assume "\<not> hasActiveLimits apps lims"
  then have "find (meetsBlockConditions lims cur foregroundApp) apps = None"
    by (auto simp: hasActiveLimits_def list_ex_iff find_None_iff meetsBlockConditions_def
        split: option.splits)
  then show ?thesis by (simp add: firstBlocked_def)
qed

lemma scan_stops_at_match:
  assumes fg: "\<forall>k. fg k = Inr foregroundApp"
    and hit: "meetsBlockConditions lims cur foregroundApp a"
  shows "scanSelectedApps lims cur fg n (pre @ a # post) = scanSelectedApps lims cur fg n (pre @ [a])"
proof (induction pre arbitrary: n)
  case Nil
  have "fg n = Inr foregroundApp" using fg by simp
  with hit show ?case
    by (auto simp: meetsBlockConditions_def foregroundMatches_def split: option.splits)
next
  case (Cons x pre)
  show ?case using Cons [of n] Cons [of "Suc n"]
    by (simp split: option.splits sum.splits)
qed

lemma meets_hasActiveLimits:
  "meetsBlockConditions lims cur foregroundApp a \<Longrightarrow> a \<in> set apps \<Longrightarrow> hasActiveLimits apps lims"
  by (auto simp: meetsBlockConditions_def hasActiveLimits_def list_ex_iff split: option.splits
      intro!: bexI [of _ a])

lemma check_fst:
  "foregroundAppModule env \<Longrightarrow> hasActiveLimits (selectedApps env) (limits env) \<Longrightarrow>
   fst (checkForBlockedApp env st) = fst (refreshUsage (usageStatsModule env) st)"
  by (simp add: checkForBlockedApp_def Let_def split: prod.splits)

lemma shouldBlockApp_unlimited:
  "fst (parseLimitsMap (stored_limits cfg)) p = None \<or>
   fst (parseLimitsMap (stored_limits cfg)) p = Some 0 \<Longrightarrow>
   fst (shouldBlockApp aenv cfg p) = None"
  by (auto simp: shouldBlockApp_def Let_def case_prod_beta split: option.splits)

lemma checkAndBlock_put:
  "PutBlockedApp p info \<in> set (snd (checkAndBlock aenv cfg)) \<Longrightarrow>
   \<exists>v. fst (shouldBlockApp aenv cfg p) = Some v"
proof -
  assume put: "PutBlockedApp p info \<in> set (snd (checkAndBlock aenv cfg))"
  obtain fgApp asked where fg: "getForegroundApp aenv = (fgApp, asked)"
    by (cases "getForegroundApp aenv") auto
  then have asked: "PutBlockedApp p info \<notin> set asked"
    by (auto simp: getForegroundApp_def split: option.splits sum.splits if_splits)
  show ?thesis
  proof (cases fgApp)
    case None
    with put fg asked show ?thesis by (auto simp: checkAndBlock_def split: option.splits if_splits)
  next
    case (Some pkg)
    obtain r checked where sb: "shouldBlockApp aenv cfg pkg = (r, checked)"
      by (cases "shouldBlockApp aenv cfg pkg") auto
    show ?thesis
    proof (cases r)
      case None
      with sb have "fst (shouldBlockApp aenv cfg pkg) = None" by simp
      from shouldBlockApp_null_logs_only [OF this] sb
      have "PutBlockedApp p info \<notin> set checked" by auto
      with put fg asked Some sb None show ?thesis
        by (auto simp: checkAndBlock_def split: option.splits if_splits)
    next
      case verdict: (Some v)
      have nc: "PutBlockedApp p info \<notin> set checked"
        using sb shouldBlockApp_cases [of aenv cfg pkg] verdict
        by (auto simp: getCurrentUsage_def split: option.splits sum.splits)
      from put fg asked Some sb verdict nc have "p = pkg"
        by (auto simp: checkAndBlock_def bringAppToForeground_def
            split: option.splits if_splits prod.splits)
      with sb verdict show ?thesis by simp
    qed
  qed
qed

lemma accessibility_check_no_start:
  "StartMainActivity x \<notin> set (snd (shouldBlockApp_accessibility aenv cfg pkg))"
  by (auto simp: shouldBlockApp_accessibility_def getCurrentUsage_def Let_def case_prod_beta
      parseStringArray_def parseLimitsMap_def
      split: option.splits if_splits sum.splits json_text.splits)

lemma blockApp_start:
  "StartMainActivity x \<in> set (blockApp aenv pkg) \<Longrightarrow> x = Some pkg"
  by (auto simp: blockApp_def split: option.splits)

lemma accessibility_start_only_if_verdict:
  assumes start: "StartMainActivity (Some p) \<in> set (onAccessibilityEvent aenv cfg event)"
  shows "fst (shouldBlockApp_accessibility aenv cfg p)"
proof (cases event)
  case None
  with start show ?thesis by (simp add: onAccessibilityEvent_def)
next
  case outer: (Some ev)
  show ?thesis
  proof (cases "eventPackageName ev")
    case None
    have "onAccessibilityEvent aenv cfg event = []"
      using outer None by (simp add: onAccessibilityEvent_def)
    with start show ?thesis by simp
  next
    case inner: (Some pkg)
    obtain block checked where sb: "shouldBlockApp_accessibility aenv cfg pkg = (block, checked)"
      by (cases "shouldBlockApp_accessibility aenv cfg pkg") auto
    with accessibility_check_no_start [of _ aenv cfg pkg]
    have nc: "StartMainActivity (Some p) \<notin> set checked" by simp
    have "onAccessibilityEvent aenv cfg event =
            (if eventType ev = TYPE_WINDOW_STATE_CHANGED \<and> pkg \<noteq> ourPackageName aenv
             then (if block then checked @ blockApp aenv pkg else checked) else [])"
      using outer inner sb by (simp add: onAccessibilityEvent_def)
    with start nc
    have "block \<and> StartMainActivity (Some p) \<in> set (blockApp aenv pkg)"
      by (auto split: if_splits)
    with blockApp_start [of "Some p" aenv pkg] sb show ?thesis by auto
  qed
qed

subsection \<open>Packages without a limit\<close>

text \<open>
  Each evaluation guards on the limit map it reads. For the hook that is the limits
  object of the store; for the two services it is the copy that
  \<^verbatim>\<open>startBlockingService\<close> stored, which is the limits object only as of the last start.
\<close>

lemma logs_issue_no_block:
  "\<forall>e \<in> set evs. \<exists>m. e = LogE m \<Longrightarrow> \<not> issuesBlock evs"
  by (induction evs) (auto simp: issuesBlock_def)

lemma hook_never_blocks_unlimited:
  assumes lim: "limits env p = None \<or> limits env p = Some 0"
  shows "\<not> (\<exists>b. emitsBlockState (snd (checkForBlockedApp env st)) b \<and> packageName b = p)"
proof -
  have "False" if "emitsBlockState (snd (checkForBlockedApp env st)) b" "packageName b = p" for b
  proof -
    from check_emits_scan [OF that(1)] have
      "SetBlockedApp (Some b) \<in> set (scanSelectedApps (limits env)
         (todayUsage (fst (checkForBlockedApp env st))) (foreground env) 0 (selectedApps env))"
      by simp
    from scan_emits_sound [OF this] that(2) lim show False by auto
  qed
  then show ?thesis by blast
qed

lemma services_never_block_unlimited_in_stored_copy:
  assumes lim: "fst (parseLimitsMap (stored_limits cfg)) p = None \<or>
                fst (parseLimitsMap (stored_limits cfg)) p = Some 0"
  shows "fst (shouldBlockApp aenv cfg p) = None \<and>
     (\<forall>info. PutBlockedApp p info \<notin> set (snd (checkAndBlock aenv cfg))) \<and>
     (fst (getForegroundApp aenv) = Some p \<longrightarrow> \<not> issuesBlock (snd (checkAndBlock aenv cfg))) \<and>
     \<not> fst (shouldBlockApp_accessibility aenv cfg p) \<and>
     (\<forall>event. StartMainActivity (Some p) \<notin> set (onAccessibilityEvent aenv cfg event))"
proof -
  from shouldBlockApp_unlimited [OF lim, of aenv]
  have none: "fst (shouldBlockApp aenv cfg p) = None" .
  have quiet: "\<not> issuesBlock (snd (shouldBlockApp aenv cfg p))"
    using shouldBlockApp_null_logs_only [OF none] by (intro logs_issue_no_block) blast
  have put: "\<forall>info. PutBlockedApp p info \<notin> set (snd (checkAndBlock aenv cfg))"
    using checkAndBlock_put [of p _ aenv cfg] none by auto
  have tick: "\<not> issuesBlock (snd (checkAndBlock aenv cfg))"
    if front: "fst (getForegroundApp aenv) = Some p"
  proof -
    obtain asked where fg: "getForegroundApp aenv = (Some p, asked)"
      using front by (cases "getForegroundApp aenv") auto
    with getForegroundApp_no_block [of aenv] have na: "\<not> issuesBlock asked" by simp
    obtain checked where sb: "shouldBlockApp aenv cfg p = (None, checked)"
      using none by (cases "shouldBlockApp aenv cfg p") auto
    with quiet have "\<not> issuesBlock checked" by simp
    with fg sb na show ?thesis
      by (auto simp: checkAndBlock_def split: option.splits)
  qed
  have acc: "\<not> fst (shouldBlockApp_accessibility aenv cfg p)"
    using lim
    by (auto simp: shouldBlockApp_accessibility_def Let_def case_prod_beta split: option.splits)
  have ev: "\<forall>event. StartMainActivity (Some p) \<notin> set (onAccessibilityEvent aenv cfg event)"
    using acc accessibility_start_only_if_verdict [of p aenv cfg] by blast
  from none put tick acc ev show ?thesis by blast
qed

subsection \<open>Foreground detection\<close>




subsection \<open>Failures and the life cycle\<close>

lemma scan_query_throws:
  "n \<le> k \<Longrightarrow> k < n + foregroundQueries (scanSelectedApps lims cur fg n apps) \<Longrightarrow>
   fg k = Inl e \<Longrightarrow>
   (\<forall>x. SetBlockedApp x \<notin> set (scanSelectedApps lims cur fg n apps)) \<and>
   ConsoleError ''BlockingService: Error checking for blocked app:''
     \<in> set (scanSelectedApps lims cur fg n apps)"
proof (induction apps arbitrary: n)
  case Nil
  then show ?case by (simp add: foregroundQueries_def)
next
  case (Cons app rest)
  show ?case
  proof (cases "\<exists>l. lims (packageName app) = Some l \<and> l \<noteq> 0 \<and>
                    l \<le> usageOrZero cur (packageName app)")
    case False
    then have eq: "scanSelectedApps lims cur fg n (app # rest) = scanSelectedApps lims cur fg n rest"
      by (auto split: option.splits)
    with Cons.prems Cons.IH [of n] show ?thesis by simp
  next
    case True
    then obtain l where l: "lims (packageName app) = Some l" "l \<noteq> 0"
      "l \<le> usageOrZero cur (packageName app)" by blast
    show ?thesis
    proof (cases "fg n")
      case (Inl e')
      with l show ?thesis by simp
    next
      case (Inr foregroundApp)
      show ?thesis
      proof (cases "foregroundMatches foregroundApp (packageName app)")
        case True
        with l Inr Cons.prems have "k = n" by (simp add: foregroundQueries_def)
        with Inr Cons.prems show ?thesis by simp
      next
        case False
        with l Inr have eq: "scanSelectedApps lims cur fg n (app # rest) =
            GetCurrentForegroundApp # scanSelectedApps lims cur fg (Suc n) rest" by simp
        from Inr Cons.prems have "k \<noteq> n" by auto
        with Cons.prems eq have "Suc n \<le> k"
          "k < Suc n + foregroundQueries (scanSelectedApps lims cur fg (Suc n) rest)"
          by (simp_all add: foregroundQueries_def)
        from Cons.IH [OF this Cons.prems(3)] eq show ?thesis by simp
      qed
    qed
  qed
qed

lemma foregroundQueries_refresh [simp]:
  "foregroundQueries (snd (refreshUsage m st) @ evs) = foregroundQueries evs"
  by (simp add: refreshUsage_def foregroundQueries_def split: option.splits sum.splits)

lemma refreshUsage_no_check_error:
  "ConsoleError ''BlockingService: Error checking for blocked app:'' \<notin> set (snd (refreshUsage m st))"
  by (simp add: refreshUsage_def split: option.splits sum.splits)

lemma check_query_throws:
  assumes "k < foregroundQueries (snd (checkForBlockedApp env st))" "foreground env k = Inl e"
  shows "(\<forall>x. SetBlockedApp x \<notin> set (snd (checkForBlockedApp env st))) \<and>
         ConsoleError ''BlockingService: Error checking for blocked app:''
           \<in> set (snd (checkForBlockedApp env st))"
proof -
  have act: "foregroundAppModule env \<and> hasActiveLimits (selectedApps env) (limits env)"
    using assms(1) by (auto simp: checkForBlockedApp_def foregroundQueries_def split: if_splits)
  note ev = check_events_active [of env st]
  from assms(1) act ev have
    "k < 0 + foregroundQueries (scanSelectedApps (limits env)
        (todayUsage (fst (checkForBlockedApp env st))) (foreground env) 0 (selectedApps env))"
    by simp
  from scan_query_throws [OF _ this assms(2)] act ev refreshUsage_no_block [of _ "usageStatsModule env" st]
  show ?thesis by auto
qed

lemma checkAndBlock_config:
  "\<exists>x. fst (checkAndBlock aenv cfg) = cfg\<lparr>stored_blocked_app := x\<rparr>"
proof -
  have "fst (checkAndBlock aenv cfg) = cfg \<or>
        (\<exists>x. fst (checkAndBlock aenv cfg) = cfg\<lparr>stored_blocked_app := x\<rparr>)"
    by (auto simp: checkAndBlock_def Let_def split: option.splits prod.splits if_splits)
  moreover have "cfg = cfg\<lparr>stored_blocked_app := stored_blocked_app cfg\<rparr>" by simp
  ultimately show ?thesis by metis
qed

lemma checkAndBlock_ignores_blocked:
  "snd (checkAndBlock aenv (cfg\<lparr>stored_blocked_app := x\<rparr>)) = snd (checkAndBlock aenv cfg)"
  by (simp add: checkAndBlock_def shouldBlockApp_def selectedAppsJsonIsEmptyArray_def Let_def
      case_prod_beta split: option.splits)

lemma next_tick_unconditional:
  "snd (checkAndBlock aenv' (fst (checkAndBlock aenv cfg))) = snd (checkAndBlock aenv' cfg)"
  using checkAndBlock_config [of aenv cfg]
    checkAndBlock_ignores_blocked [where aenv = aenv' and cfg = cfg]
  by auto


lemma no_limits_stops_service:
  "\<not> hasActiveLimits apps lims \<Longrightarrow>
   serviceEffect True apps lims startFailed None =
     [StopBlockingService, SetIsServiceRunning False, SetBlockedApp None]"
  by (simp add: serviceEffect_def stopService_def)

lemma no_limits_no_queries:
  "\<not> hasActiveLimits (selectedApps env) (limits env) \<Longrightarrow> foregroundAppModule env \<Longrightarrow>
   checkForBlockedApp env st = (st, [SetBlockedApp None])"
  by (simp add: checkForBlockedApp_def)

lemma empty_config_stops_self:
  "prefsFailure aenv = None \<Longrightarrow> selectedAppsJsonIsEmptyArray cfg \<Longrightarrow>
   checkAndBlock aenv cfg = (cfg, [StopSelf])"
  by (simp add: checkAndBlock_def)

lemma stop_keeps_config:
  "config (stopBlockingService d) = config d \<and> \<not> monitoring (stopBlockingService d)"
  by (simp add: stopBlockingService_def)

subsection \<open>The state of the hook\<close>




subsection \<open>The polling query of the service\<close>



section \<open>The claims\<close>

text \<open>
  C1, as the code implements it. For a package \<open>p\<close> of the selection list with a limit
  \<open>L > 0\<close> that the foreground query reports as the foreground package, an evaluation
  blocks \<open>p\<close> exactly when today's usage \<open>u\<close> of \<open>p\<close> satisfies \<open>u \<ge> L\<close>, and the BlockState
  carries that usage and that limit. The first conjunct is the evaluation of the hook
  (\<^verbatim>\<open>checkForBlockedApp\<close>), the second the tick of the service (\<^verbatim>\<open>checkAndBlock\<close> with
  \<^verbatim>\<open>shouldBlockApp\<close>). The witness runs the two scenarios of the specification: limit 60000
  with usage 60000 blocks, with usage 59999 it does not.
\<close>

theorem block_iff_usage_reaches_limit:
  "(foregroundAppModule env \<and> app \<in> set (selectedApps env) \<and> packageName app = p \<and>
    limits env p = Some L \<and> 0 < L \<and>
    (\<forall>k. \<exists>f. foreground env k = Inr (Some f) \<and> packageName f = p) \<and>
    usageOrZero (todayUsage (fst (checkForBlockedApp env st))) p = u \<longrightarrow>
      ((\<exists>b. emitsBlockState (snd (checkForBlockedApp env st)) b \<and> packageName b = p)
         \<longleftrightarrow> L \<le> u) \<and>
      (\<forall>b. emitsBlockState (snd (checkForBlockedApp env st)) b \<and> packageName b = p \<longrightarrow>
         usageMs b = u \<and> limitMs b = L)) \<and>
   (prefsFailure aenv = None \<and> fst (getForegroundApp aenv) = Some p \<and>
    p \<in> fst (parseStringArray (stored_selected_apps cfg)) \<and>
    fst (parseLimitsMap (stored_limits cfg)) p = Some L \<and> 0 < L \<and>
    fst (getCurrentUsage aenv p) = u \<longrightarrow>
      (issuesBlock (snd (checkAndBlock aenv cfg)) \<longleftrightarrow> L \<le> u) \<and>
      (L \<le> u \<longrightarrow>
         (\<exists>name. stored_blocked_app (fst (checkAndBlock aenv cfg)) = Some (p, BlockInfo name u L) \<and>
                 PutBlockedApp p (BlockInfo name u L) \<in> set (snd (checkAndBlock aenv cfg)))))"
proof (rule conjI; rule impI)
  assume "foregroundAppModule env \<and> app \<in> set (selectedApps env) \<and> packageName app = p \<and>
    limits env p = Some L \<and> 0 < L \<and>
    (\<forall>k. \<exists>f. foreground env k = Inr (Some f) \<and> packageName f = p) \<and>
    usageOrZero (todayUsage (fst (checkForBlockedApp env st))) p = u"
  then show "((\<exists>b. emitsBlockState (snd (checkForBlockedApp env st)) b \<and> packageName b = p)
         \<longleftrightarrow> L \<le> u) \<and>
      (\<forall>b. emitsBlockState (snd (checkForBlockedApp env st)) b \<and> packageName b = p \<longrightarrow>
         usageMs b = u \<and> limitMs b = L)"
    by (intro js_block_iff_usage [where env = env and app = app and p = p and L = L
          and u = u and st = st]) simp_all
next
  assume "prefsFailure aenv = None \<and> fst (getForegroundApp aenv) = Some p \<and>
    p \<in> fst (parseStringArray (stored_selected_apps cfg)) \<and>
    fst (parseLimitsMap (stored_limits cfg)) p = Some L \<and> 0 < L \<and>
    fst (getCurrentUsage aenv p) = u"
  then show "(issuesBlock (snd (checkAndBlock aenv cfg)) \<longleftrightarrow> L \<le> u) \<and>
      (L \<le> u \<longrightarrow>
         (\<exists>name. stored_blocked_app (fst (checkAndBlock aenv cfg)) = Some (p, BlockInfo name u L) \<and>
                 PutBlockedApp p (BlockInfo name u L) \<in> set (snd (checkAndBlock aenv cfg))))"
    by (intro service_block_iff_usage [where env = aenv and p = cfg and pkg = p and L = L
          and u = u]) simp_all
qed

theorem block_iff_usage_reaches_limit_witness:
  "foregroundAppModule (scenarioJs 60000 60000 (Inr (Some appX))) \<and>
   appX \<in> set (selectedApps (scenarioJs 60000 60000 (Inr (Some appX)))) \<and>
   limits (scenarioJs 60000 60000 (Inr (Some appX))) ''com.x'' = Some 60000 \<and>
   (\<forall>k. \<exists>f. foreground (scenarioJs 60000 60000 (Inr (Some appX))) k = Inr (Some f) \<and>
           packageName f = ''com.x'') \<and>
   usageOrZero (todayUsage (fst (checkForBlockedApp (scenarioJs 60000 60000 (Inr (Some appX)))
      emptyStore))) ''com.x'' = 60000 \<and>
   (\<exists>b. emitsBlockState (snd (checkForBlockedApp (scenarioJs 60000 60000 (Inr (Some appX)))
      emptyStore)) b \<and> packageName b = ''com.x'') \<and>
   usageOrZero (todayUsage (fst (checkForBlockedApp (scenarioJs 60000 59999 (Inr (Some appX)))
      emptyStore))) ''com.x'' = 59999 \<and>
   \<not> (\<exists>b. emitsBlockState (snd (checkForBlockedApp (scenarioJs 60000 59999 (Inr (Some appX)))
      emptyStore)) b \<and> packageName b = ''com.x'') \<and>
   prefsFailure (scenarioAndroid ''com.x'' 60000) = None \<and>
   fst (getForegroundApp (scenarioAndroid ''com.x'' 60000)) = Some ''com.x'' \<and>
   ''com.x'' \<in> fst (parseStringArray (stored_selected_apps (scenarioPrefs 60000))) \<and>
   fst (parseLimitsMap (stored_limits (scenarioPrefs 60000))) ''com.x'' = Some 60000 \<and>
   fst (getCurrentUsage (scenarioAndroid ''com.x'' 60000) ''com.x'') = 60000 \<and>
   issuesBlock (snd (checkAndBlock (scenarioAndroid ''com.x'' 60000) (scenarioPrefs 60000))) \<and>
   fst (getCurrentUsage (scenarioAndroid ''com.x'' 59999) ''com.x'') = 59999 \<and>
   \<not> issuesBlock (snd (checkAndBlock (scenarioAndroid ''com.x'' 59999) (scenarioPrefs 60000)))"
  using
    block_iff_usage_reaches_limit [where env = "scenarioJs 60000 60000 (Inr (Some appX))"
      and app = appX and p = "''com.x''" and L = 60000 and u = 60000 and st = emptyStore
      and aenv = "scenarioAndroid ''com.x'' 60000" and cfg = "scenarioPrefs 60000"]
    block_iff_usage_reaches_limit [where env = "scenarioJs 60000 59999 (Inr (Some appX))"
      and app = appX and p = "''com.x''" and L = 60000 and u = 59999 and st = emptyStore
      and aenv = "scenarioAndroid ''com.x'' 59999" and cfg = "scenarioPrefs 60000"]
  by (simp add: scenario_defs checkForBlockedApp_def hasActiveLimits_def refreshUsage_def
      usageArrayToMap_def usageOrZero_def getForegroundApp_def VERSION_CODES_Q_def
      IMPORTANCE_FOREGROUND_def parseStringArray_def parseLimitsMap_def getCurrentUsage_def)

text \<open>
  C1 as stated fails for a package that has a limit but is no longer selected: the limit
  store is independent of the selection list, and deselecting an app leaves its limit in
  place. Here \<^verbatim>\<open>com.x\<close> has the limit 60000, the usage 70000 and is in front, but only
  \<^verbatim>\<open>com.y\<close> is selected: the loop never looks at \<^verbatim>\<open>com.x\<close> and the evaluation sets
  \<^verbatim>\<open>null\<close>.
\<close>

theorem deselected_package_not_blocked:
  "limits ((scenarioJs2 60000 70000 30000 0 (Inr (Some appX)))\<lparr>selectedApps := [appY]\<rparr>)
     ''com.x'' = Some 60000 \<and>
   foreground ((scenarioJs2 60000 70000 30000 0 (Inr (Some appX)))\<lparr>selectedApps := [appY]\<rparr>) 0 =
     Inr (Some \<lparr>packageName = ''com.x'', appName = ''X''\<rparr>) \<and>
   todayUsage (fst (checkForBlockedApp
       ((scenarioJs2 60000 70000 30000 0 (Inr (Some appX)))\<lparr>selectedApps := [appY]\<rparr>)
       emptyStore)) ''com.x'' = Some 70000 \<and>
   snd (checkForBlockedApp
       ((scenarioJs2 60000 70000 30000 0 (Inr (Some appX)))\<lparr>selectedApps := [appY]\<rparr>)
       emptyStore) = [GetTodayUsageStats, SetBlockedApp None]"
  by (simp add: scenario_defs scenario2_defs js_eval)




text \<open>
  C3 at a failing input. The OS reports 30 h (108000000 ms) for \<^verbatim>\<open>com.x\<close>, whose limit is
  25 h (90000000 ms). \<^verbatim>\<open>getTodayUsageStats\<close> caps the value at 24 h, so the hook, which
  gets its usage from there, compares 86400000 with the limit and emits no BlockState.
  \<^verbatim>\<open>getCurrentUsage\<close> of the two services returns the value uncapped: the service tick and
  the accessibility event compare 108000000 with the limit and block.
\<close>

theorem service_usage_not_capped:
  "usageStatsMap [UsageStats ''com.x'' 108000000] ''com.x'' = Some 86400000 \<and>
   snd (checkForBlockedApp (scenarioJs 90000000 (min 108000000 maxDailyUsage) (Inr (Some appX))) emptyStore) =
     [GetTodayUsageStats, SetBlockedApp None] \<and>
   fst (getCurrentUsage (scenarioAndroid ''com.x'' 108000000) ''com.x'') = 108000000 \<and>
   fst (shouldBlockApp (scenarioAndroid ''com.x'' 108000000) (scenarioPrefs 90000000) ''com.x'') =
     Some (True, BlockInfo ''X'' 108000000 90000000) \<and>
   snd (checkAndBlock (scenarioAndroid ''com.x'' 108000000) (scenarioPrefs 90000000)) =
     [GetRunningAppProcesses, QueryUsageStats,
      PutBlockedApp ''com.x'' (BlockInfo ''X'' 108000000 90000000), StartMainActivity None] \<and>
   onAccessibilityEvent (scenarioAndroid ''com.x'' 108000000) (scenarioPrefs 90000000)
     (Some \<lparr>eventType = 32, eventPackageName = Some ''com.x''\<rparr>) =
     [QueryUsageStats, StartMainActivity (Some ''com.x''), PerformGlobalActionBack]"
  by (simp add: scenario_defs js_eval android_eval usageStatsMap_def maxDailyUsage_def)

text \<open>
  C4 at a failing input. \<^verbatim>\<open>com.x\<close> had the only limit and the service was started with it;
  the user removes the limit, so \<^verbatim>\<open>com.x\<close> is absent from the limit map, and the hook stops
  the service. The hook itself emits no BlockState for \<^verbatim>\<open>com.x\<close>. The copy of the limits
  that the start stored still holds the entry, and the accessibility service reads that
  copy: at the next window change of \<^verbatim>\<open>com.x\<close>, whose usage is far above the removed
  limit, it starts the blocking activity for \<^verbatim>\<open>com.x\<close>.
\<close>

theorem accessibility_blocks_package_without_limit:
  "getLimit (removeLimit ''com.x'' (Map.empty(''com.x'' \<mapsto> 60000))) ''com.x'' = None \<and>
   snd (checkForBlockedApp
         ((scenarioJs 60000 999999 (Inr (Some appX)))
            \<lparr>limits := removeLimit ''com.x'' (Map.empty(''com.x'' \<mapsto> 60000))\<rparr>)
         emptyStore) = [SetBlockedApp None] \<and>
   fst (parseLimitsMap (stored_limits (config (deliver
      (serviceEffect True [appX] (removeLimit ''com.x'' (Map.empty(''com.x'' \<mapsto> 60000))) None None)
      (deliver (serviceEffect True [appX] (Map.empty(''com.x'' \<mapsto> 60000)) None None)
         freshDevice))))) ''com.x'' = Some 60000 \<and>
   issuesBlock (onAccessibilityEvent (scenarioAndroid ''com.x'' 999999)
     (config (deliver
        (serviceEffect True [appX] (removeLimit ''com.x'' (Map.empty(''com.x'' \<mapsto> 60000))) None None)
        (deliver (serviceEffect True [appX] (Map.empty(''com.x'' \<mapsto> 60000)) None None)
           freshDevice)))
     (Some (windowChanged ''com.x'')))"
  by (simp add: scenario_defs scenario3_defs js_eval android_eval serviceEffect_def
      startService_def stopService_def limitsArray_def removeLimit_def getLimit_def
      startBlockingService_def stopBlockingService_def issuesBlock_def)

text \<open>
  C5. With a foreground answer that stays the same during the evaluation and limits
  that are not negative, the evaluation calls \<^verbatim>\<open>setBlockedApp\<close> exactly once, with the
  BlockState of the first package of the selection list that is limited, has met its
  limit and matches the foreground identity (any such package when the identity is
  unknown), or with \<^verbatim>\<open>null\<close> when there is none. The scan stops there: the packages that
  follow the first match do not change a single event.
\<close>

theorem first_match_wins:
  assumes "foregroundAppModule env"
    and "\<forall>k. foreground env k = Inr foregroundApp"
    and "\<forall>q l. limits env q = Some l \<longrightarrow> 0 \<le> l"
  shows "setBlockedAppCalls (snd (checkForBlockedApp env st)) =
           [firstBlocked (limits env) (todayUsage (fst (checkForBlockedApp env st)))
              foregroundApp (selectedApps env)] \<and>
         (\<forall>pre a post. selectedApps env = pre @ a # post \<and>
            meetsBlockConditions (limits env) (todayUsage (fst (checkForBlockedApp env st)))
              foregroundApp a \<longrightarrow>
            snd (checkForBlockedApp env st) =
              snd (checkForBlockedApp (env\<lparr>selectedApps := pre @ [a]\<rparr>) st))"
proof (rule conjI)
  show "setBlockedAppCalls (snd (checkForBlockedApp env st)) =
           [firstBlocked (limits env) (todayUsage (fst (checkForBlockedApp env st)))
              foregroundApp (selectedApps env)]"
  proof (cases "hasActiveLimits (selectedApps env) (limits env)")
    case True
    from check_events_active [OF assms(1) True, of st]
      scan_stable_foreground [OF assms(2,3)]
    show ?thesis by simp
  next
    case False
    with assms(1) have "snd (checkForBlockedApp env st) = [SetBlockedApp None]"
      by (simp add: checkForBlockedApp_def)
    with no_active_limits_none [OF False] show ?thesis by simp
  qed
next
  show "\<forall>pre a post. selectedApps env = pre @ a # post \<and>
            meetsBlockConditions (limits env) (todayUsage (fst (checkForBlockedApp env st)))
              foregroundApp a \<longrightarrow>
            snd (checkForBlockedApp env st) =
              snd (checkForBlockedApp (env\<lparr>selectedApps := pre @ [a]\<rparr>) st)"
  proof (intro allI impI, elim conjE)
    fix pre a post
    let ?env' = "env\<lparr>selectedApps := pre @ [a]\<rparr>"
    assume sel: "selectedApps env = pre @ a # post"
      and hit: "meetsBlockConditions (limits env) (todayUsage (fst (checkForBlockedApp env st)))
              foregroundApp a"
    from hit sel have act: "hasActiveLimits (selectedApps env) (limits env)"
      by (auto intro: meets_hasActiveLimits)
    from hit have act': "hasActiveLimits (selectedApps ?env') (limits ?env')"
      by (auto intro: meets_hasActiveLimits)
    have fm: "foregroundAppModule ?env'" using assms(1) by simp
    have st_eq: "fst (checkForBlockedApp ?env' st) = fst (checkForBlockedApp env st)"
      using check_fst [OF assms(1) act, of st] check_fst [OF fm act', of st] by simp
    show "snd (checkForBlockedApp env st) = snd (checkForBlockedApp ?env' st)"
      using check_events_active [OF assms(1) act, of st] check_events_active [OF fm act', of st]
        st_eq sel scan_stops_at_match [OF assms(2) hit, of 0 pre post]
      by simp
  qed
qed

theorem first_match_wins_witness:
  "foregroundAppModule (scenarioJs2 60000 70000 30000 90000 (Inr None)) \<and>
   (\<forall>k. foreground (scenarioJs2 60000 70000 30000 90000 (Inr None)) k = Inr None) \<and>
   limits (scenarioJs2 60000 70000 30000 90000 (Inr None)) ''com.x'' = Some 60000 \<and>
   limits (scenarioJs2 60000 70000 30000 90000 (Inr None)) ''com.y'' = Some 30000 \<and>
   selectedApps (scenarioJs2 60000 70000 30000 90000 (Inr None)) = [] @ appX # [appY] \<and>
   meetsBlockConditions (limits (scenarioJs2 60000 70000 30000 90000 (Inr None)))
     (todayUsage (fst (checkForBlockedApp (scenarioJs2 60000 70000 30000 90000 (Inr None))
        emptyStore))) None appX \<and>
   meetsBlockConditions (limits (scenarioJs2 60000 70000 30000 90000 (Inr None)))
     (todayUsage (fst (checkForBlockedApp (scenarioJs2 60000 70000 30000 90000 (Inr None))
        emptyStore))) None appY \<and>
   setBlockedAppCalls (snd (checkForBlockedApp (scenarioJs2 60000 70000 30000 90000 (Inr None))
      emptyStore)) =
     [Some \<lparr>packageName = ''com.x'', appName = ''X'', usageMs = 70000, limitMs = 60000\<rparr>] \<and>
   snd (checkForBlockedApp (scenarioJs2 60000 70000 30000 90000 (Inr None)) emptyStore) =
     snd (checkForBlockedApp ((scenarioJs2 60000 70000 30000 90000 (Inr None))
            \<lparr>selectedApps := [] @ [appX]\<rparr>) emptyStore)"
proof -
  let ?env = "scenarioJs2 60000 70000 30000 90000 (Inr None)"
  have h1: "foregroundAppModule ?env" by (simp add: scenarioJs2_def)
  have h2: "\<forall>k. foreground ?env k = Inr None" by (simp add: scenarioJs2_def always_def)
  have h3: "\<forall>q l. limits ?env q = Some l \<longrightarrow> 0 \<le> l"
    by (simp add: scenarioJs2_def)
  have sel: "selectedApps ?env = [] @ appX # [appY]" by (simp add: scenarioJs2_def)
  have cur: "todayUsage (fst (checkForBlockedApp ?env emptyStore)) =
               Map.empty(''com.x'' \<mapsto> 70000, ''com.y'' \<mapsto> 90000)"
    by (simp add: scenario_defs scenario2_defs js_eval)
  have mx: "meetsBlockConditions (limits ?env) (todayUsage (fst (checkForBlockedApp ?env emptyStore)))
          None appX"
    unfolding cur by (simp add: scenario_defs scenario2_defs meetsBlockConditions_def usageOrZero_def)
  have my: "meetsBlockConditions (limits ?env) (todayUsage (fst (checkForBlockedApp ?env emptyStore)))
          None appY"
    unfolding cur by (simp add: scenario_defs scenario2_defs meetsBlockConditions_def usageOrZero_def)
  have fb: "firstBlocked (limits ?env) (todayUsage (fst (checkForBlockedApp ?env emptyStore)))
          None (selectedApps ?env) =
          Some \<lparr>packageName = ''com.x'', appName = ''X'', usageMs = 70000, limitMs = 60000\<rparr>"
    unfolding cur
    by (simp add: scenario_defs scenario2_defs firstBlocked_def meetsBlockConditions_def usageOrZero_def)
  note main = first_match_wins [OF h1 h2 h3, of emptyStore]
  from main fb have once: "setBlockedAppCalls (snd (checkForBlockedApp ?env emptyStore)) =
     [Some \<lparr>packageName = ''com.x'', appName = ''X'', usageMs = 70000, limitMs = 60000\<rparr>]"
    by simp
  from main have "selectedApps ?env = [] @ appX # [appY] \<and>
      meetsBlockConditions (limits ?env) (todayUsage (fst (checkForBlockedApp ?env emptyStore)))
        None appX \<longrightarrow>
      snd (checkForBlockedApp ?env emptyStore) =
        snd (checkForBlockedApp (?env\<lparr>selectedApps := [] @ [appX]\<rparr>) emptyStore)"
    by blast
  with sel mx have stop: "snd (checkForBlockedApp ?env emptyStore) =
        snd (checkForBlockedApp (?env\<lparr>selectedApps := [] @ [appX]\<rparr>) emptyStore)"
    by blast
  have lx: "limits ?env ''com.x'' = Some 60000" and ly: "limits ?env ''com.y'' = Some 30000"
    by (simp_all add: scenarioJs2_def)
  from h1 h2 lx ly sel mx my once stop show ?thesis by blast
qed

text \<open>
  C6, as the code implements it. On a tick of the service: if reading the stored
  configuration throws, the tick logs the error and does nothing else; if the foreground
  query throws, the tick logs it, issues no block and leaves the preferences as they
  were; if the usage query throws, no block is issued and no blocked-app record is
  written, and the error is logged whenever the query was made. In an evaluation of the
  hook: if any foreground query it makes throws, the error is logged and
  \<^verbatim>\<open>setBlockedApp\<close> is not called at all. Nothing counts failures: the events of a tick
  do not depend on what an earlier tick left behind, and the store an evaluation leaves
  does not depend on the foreground answers. A usage query that throws in the hook is
  different: the error is logged, the store keeps its cached map, and the scan runs on
  that map.
\<close>

theorem read_failure_blocks_nothing:
  "(prefsFailure aenv = Some e \<longrightarrow>
      checkAndBlock aenv cfg = (cfg, [LogE ''Error in checkAndBlock:''])) \<and>
   (prefsFailure aenv = None \<and> \<not> selectedAppsJsonIsEmptyArray cfg \<and>
    (activityManager aenv = None \<or>
     sdkInt aenv \<ge> VERSION_CODES_Q \<and> activityManager aenv = Some (Inl e)) \<longrightarrow>
      fst (checkAndBlock aenv cfg) = cfg \<and>
      \<not> issuesBlock (snd (checkAndBlock aenv cfg)) \<and>
      LogE ''Error getting foreground app:'' \<in> set (snd (checkAndBlock aenv cfg))) \<and>
   (usageStatsManager aenv = Some (Inl e) \<longrightarrow>
      \<not> issuesBlock (snd (checkAndBlock aenv cfg)) \<and>
      (\<forall>pkg info. PutBlockedApp pkg info \<notin> set (snd (checkAndBlock aenv cfg))) \<and>
      (QueryUsageStats \<in> set (snd (checkAndBlock aenv cfg)) \<longrightarrow>
         LogE ''Error getting current usage:'' \<in> set (snd (checkAndBlock aenv cfg)))) \<and>
   (\<forall>aenv'. snd (checkAndBlock aenv' (fst (checkAndBlock aenv cfg))) =
             snd (checkAndBlock aenv' cfg)) \<and>
   (\<forall>k. k < foregroundQueries (snd (checkForBlockedApp env st)) \<and> foreground env k = Inl e \<longrightarrow>
      (\<forall>x. SetBlockedApp x \<notin> set (snd (checkForBlockedApp env st))) \<and>
      ConsoleError ''BlockingService: Error checking for blocked app:''
        \<in> set (snd (checkForBlockedApp env st))) \<and>
   (\<forall>fg'. fst (checkForBlockedApp (env\<lparr>foreground := fg'\<rparr>) st) = fst (checkForBlockedApp env st)) \<and>
   (usageStatsModule env = Some (Inl e) \<and> foregroundAppModule env \<and>
    hasActiveLimits (selectedApps env) (limits env) \<longrightarrow>
      checkForBlockedApp env st =
        (st, [GetTodayUsageStats, ConsoleError ''Error refreshing usage stats:''] @
             scanSelectedApps (limits env) (todayUsage st) (foreground env) 0 (selectedApps env)))"
proof (intro conjI)
  show "prefsFailure aenv = Some e \<longrightarrow>
      checkAndBlock aenv cfg = (cfg, [LogE ''Error in checkAndBlock:''])"
    by (simp add: checkAndBlock_def)
  show "prefsFailure aenv = None \<and> \<not> selectedAppsJsonIsEmptyArray cfg \<and>
    (activityManager aenv = None \<or>
     sdkInt aenv \<ge> VERSION_CODES_Q \<and> activityManager aenv = Some (Inl e)) \<longrightarrow>
      fst (checkAndBlock aenv cfg) = cfg \<and>
      \<not> issuesBlock (snd (checkAndBlock aenv cfg)) \<and>
      LogE ''Error getting foreground app:'' \<in> set (snd (checkAndBlock aenv cfg))"
    by (auto simp: checkAndBlock_def getForegroundApp_def)
  show "usageStatsManager aenv = Some (Inl e) \<longrightarrow>
      \<not> issuesBlock (snd (checkAndBlock aenv cfg)) \<and>
      (\<forall>pkg info. PutBlockedApp pkg info \<notin> set (snd (checkAndBlock aenv cfg))) \<and>
      (QueryUsageStats \<in> set (snd (checkAndBlock aenv cfg)) \<longrightarrow>
         LogE ''Error getting current usage:'' \<in> set (snd (checkAndBlock aenv cfg)))"
  proof
    assume u: "usageStatsManager aenv = Some (Inl e)"
    then have gu: "\<And>pkg. getCurrentUsage aenv pkg =
        (0, [QueryUsageStats, LogE ''Error getting current usage:''])"
      by (simp add: getCurrentUsage_def)
    have sb: "\<And>pkg. fst (shouldBlockApp aenv cfg pkg) = None \<or>
        (\<exists>info. shouldBlockApp aenv cfg pkg =
           (Some (False, info), [QueryUsageStats, LogE ''Error getting current usage:'']))"
    proof -
      fix pkg
      from shouldBlockApp_cases [of aenv cfg pkg]
      show "fst (shouldBlockApp aenv cfg pkg) = None \<or>
        (\<exists>info. shouldBlockApp aenv cfg pkg =
           (Some (False, info), [QueryUsageStats, LogE ''Error getting current usage:'']))"
      proof
        assume "fst (shouldBlockApp aenv cfg pkg) = None"
        then show ?thesis ..
      next
        assume "\<exists>L name. 0 < L \<and> shouldBlockApp aenv cfg pkg =
          (Some (L \<le> fst (getCurrentUsage aenv pkg),
                 BlockInfo name (fst (getCurrentUsage aenv pkg)) L),
           snd (getCurrentUsage aenv pkg))"
        then obtain L name where "0 < L" "shouldBlockApp aenv cfg pkg =
          (Some (L \<le> 0, BlockInfo name 0 L),
           [QueryUsageStats, LogE ''Error getting current usage:''])"
          by (auto simp: gu)
        then have "shouldBlockApp aenv cfg pkg =
          (Some (False, BlockInfo name 0 L),
           [QueryUsageStats, LogE ''Error getting current usage:''])" by simp
        then show ?thesis by blast
      qed
    qed
    obtain fgApp asked where fg: "getForegroundApp aenv = (fgApp, asked)"
      by (cases "getForegroundApp aenv") auto
    have asked: "\<not> issuesBlock asked" "QueryUsageStats \<notin> set asked"
      "\<And>pkg info. PutBlockedApp pkg info \<notin> set asked"
      using fg by (auto simp: getForegroundApp_def issuesBlock_def split: option.splits sum.splits if_splits)
    show "\<not> issuesBlock (snd (checkAndBlock aenv cfg)) \<and>
      (\<forall>pkg info. PutBlockedApp pkg info \<notin> set (snd (checkAndBlock aenv cfg))) \<and>
      (QueryUsageStats \<in> set (snd (checkAndBlock aenv cfg)) \<longrightarrow>
         LogE ''Error getting current usage:'' \<in> set (snd (checkAndBlock aenv cfg)))"
    proof (cases fgApp)
      case None
      with fg asked show ?thesis by (auto simp: checkAndBlock_def split: option.splits)
    next
      case (Some pkg)
      obtain r checked where r: "shouldBlockApp aenv cfg pkg = (r, checked)"
        by (cases "shouldBlockApp aenv cfg pkg") auto
      from sb [of pkg] r have ch: "r = None \<or>
          (\<exists>info. r = Some (False, info) \<and>
            checked = [QueryUsageStats, LogE ''Error getting current usage:''])" by auto
      have nq: "\<not> issuesBlock checked \<and> QueryUsageStats \<notin> set checked \<and>
          (\<forall>pkg info. PutBlockedApp pkg info \<notin> set checked)" if "r = None"
      proof -
        from that r have "fst (shouldBlockApp aenv cfg pkg) = None" by simp
        from shouldBlockApp_null_logs_only [OF this] r
        have logs: "\<forall>e \<in> set checked. \<exists>m. e = LogE m" by simp
        from logs_issue_no_block [OF logs] logs show ?thesis by auto
      qed
      from ch show ?thesis
      proof
        assume "r = None"
        with nq fg Some r asked show ?thesis
          by (auto simp: checkAndBlock_def split: option.splits)
      next
        assume "\<exists>info. r = Some (False, info) \<and>
            checked = [QueryUsageStats, LogE ''Error getting current usage:'']"
        with fg Some r asked show ?thesis
          by (auto simp: checkAndBlock_def split: option.splits)
      qed
    qed
  qed
  show "\<forall>aenv'. snd (checkAndBlock aenv' (fst (checkAndBlock aenv cfg))) =
             snd (checkAndBlock aenv' cfg)"
    using next_tick_unconditional by blast
  show "\<forall>k. k < foregroundQueries (snd (checkForBlockedApp env st)) \<and> foreground env k = Inl e \<longrightarrow>
      (\<forall>x. SetBlockedApp x \<notin> set (snd (checkForBlockedApp env st))) \<and>
      ConsoleError ''BlockingService: Error checking for blocked app:''
        \<in> set (snd (checkForBlockedApp env st))"
    using check_query_throws [of _ env st e] by blast
  show "\<forall>fg'. fst (checkForBlockedApp (env\<lparr>foreground := fg'\<rparr>) st) = fst (checkForBlockedApp env st)"
    by (simp add: checkForBlockedApp_def Let_def split: prod.splits)
  show "usageStatsModule env = Some (Inl e) \<and> foregroundAppModule env \<and>
    hasActiveLimits (selectedApps env) (limits env) \<longrightarrow>
      checkForBlockedApp env st =
        (st, [GetTodayUsageStats, ConsoleError ''Error refreshing usage stats:''] @
             scanSelectedApps (limits env) (todayUsage st) (foreground env) 0 (selectedApps env))"
    by (simp add: checkForBlockedApp_def refreshUsage_def)
qed


theorem read_failure_blocks_nothing_witness:
  "prefsFailure ((scenarioAndroid ''com.x'' 60000)\<lparr>prefsFailure := Some (Exception ''io'')\<rparr>) =
     Some (Exception ''io'') \<and>
   checkAndBlock ((scenarioAndroid ''com.x'' 60000)\<lparr>prefsFailure := Some (Exception ''io'')\<rparr>)
     (scenarioPrefs 60000) = (scenarioPrefs 60000, [LogE ''Error in checkAndBlock:'']) \<and>
   \<not> selectedAppsJsonIsEmptyArray (scenarioPrefs 60000) \<and>
   sdkInt (scenarioAndroid ''com.x'' 60000) \<ge> VERSION_CODES_Q \<and>
   snd (checkAndBlock ((scenarioAndroid ''com.x'' 60000)
          \<lparr>activityManager := Some (Inl (Exception ''io''))\<rparr>) (scenarioPrefs 60000)) =
     [GetRunningAppProcesses, LogE ''Error getting foreground app:''] \<and>
   snd (checkAndBlock ((scenarioAndroid ''com.x'' 60000)
          \<lparr>usageStatsManager := Some (Inl (Exception ''io''))\<rparr>) (scenarioPrefs 60000)) =
     [GetRunningAppProcesses, QueryUsageStats, LogE ''Error getting current usage:'',
      RemoveBlockedApp] \<and>
   foreground (scenarioJs 60000 60000 (Inl (Exception ''io''))) 0 = Inl (Exception ''io'') \<and>
   0 < foregroundQueries (snd (checkForBlockedApp (scenarioJs 60000 60000 (Inl (Exception ''io'')))
         emptyStore)) \<and>
   snd (checkForBlockedApp (scenarioJs 60000 60000 (Inl (Exception ''io''))) emptyStore) =
     [GetTodayUsageStats, GetCurrentForegroundApp,
      ConsoleError ''BlockingService: Error checking for blocked app:''] \<and>
   hasActiveLimits (selectedApps (scenarioJs 60000 0 (Inr None)))
     (limits (scenarioJs 60000 0 (Inr None))) \<and>
   checkForBlockedApp ((scenarioJs 60000 0 (Inr None))
       \<lparr>usageStatsModule := Some (Inl (Exception ''io''))\<rparr>) (cachedStore 59999) =
     (cachedStore 59999,
      [GetTodayUsageStats, ConsoleError ''Error refreshing usage stats:'', SetBlockedApp None])"
  using
    read_failure_blocks_nothing [where aenv = "(scenarioAndroid ''com.x'' 60000)
        \<lparr>prefsFailure := Some (Exception ''io'')\<rparr>" and cfg = "scenarioPrefs 60000"
      and e = "Exception ''io''" and env = "scenarioJs 60000 60000 (Inl (Exception ''io''))"
      and st = emptyStore]
    read_failure_blocks_nothing [where aenv = "(scenarioAndroid ''com.x'' 60000)
        \<lparr>activityManager := Some (Inl (Exception ''io''))\<rparr>" and cfg = "scenarioPrefs 60000"
      and e = "Exception ''io''" and env = "(scenarioJs 60000 0 (Inr None))
       \<lparr>usageStatsModule := Some (Inl (Exception ''io''))\<rparr>" and st = "cachedStore 59999"]
    read_failure_blocks_nothing [where aenv = "(scenarioAndroid ''com.x'' 60000)
        \<lparr>usageStatsManager := Some (Inl (Exception ''io''))\<rparr>" and cfg = "scenarioPrefs 60000"
      and e = "Exception ''io''" and env = "scenarioJs 60000 60000 (Inl (Exception ''io''))"
      and st = emptyStore]
  by (simp add: scenario_defs scenario3_defs js_eval android_eval foregroundQueries_def)

text \<open>
  C6 as stated fails for the usage query of the hook: the rejected query is logged by
  \<^verbatim>\<open>refreshUsage\<close> itself, and the evaluation then emits a BlockState from the cached
  usage.
\<close>

theorem stale_usage_still_blocks:
  "usageStatsModule ((scenarioJs 60000 0 (Inr None))
       \<lparr>usageStatsModule := Some (Inl (Exception ''io''))\<rparr>) = Some (Inl (Exception ''io'')) \<and>
   checkForBlockedApp ((scenarioJs 60000 0 (Inr None))
       \<lparr>usageStatsModule := Some (Inl (Exception ''io''))\<rparr>) (cachedStore 60000) =
     (cachedStore 60000,
      [GetTodayUsageStats, ConsoleError ''Error refreshing usage stats:'',
       GetCurrentForegroundApp,
       SetBlockedApp (Some \<lparr>packageName = ''com.x'', appName = ''X'',
                             usageMs = 60000, limitMs = 60000\<rparr>)])"
  by (simp add: scenario_defs scenario3_defs js_eval)

text \<open>
  C7 at a failing input. The user selects \<^verbatim>\<open>com.x\<close> and gives it a limit of one minute; the
  effect of the hook starts the service, which stores the configuration. The user then
  removes the limit, the last one: the effect stops the service, and the scheduled task
  is cancelled. The stored configuration is not touched by the stop, and the
  accessibility service reads it at the next window change of \<^verbatim>\<open>com.x\<close>: it queries the
  usage and blocks the app.
\<close>

theorem accessibility_blocks_after_last_limit_removed:
  "serviceEffect True [appX] (Map.empty(''com.x'' \<mapsto> 60000)) None None =
     [StartBlockingService [''com.x''] [(''com.x'', 60000)], SetIsServiceRunning True] \<and>
   hasActiveLimits [appX] (removeLimit ''com.x'' (Map.empty(''com.x'' \<mapsto> 60000))) = False \<and>
   serviceEffect True [appX] (removeLimit ''com.x'' (Map.empty(''com.x'' \<mapsto> 60000))) None None =
     [StopBlockingService, SetIsServiceRunning False, SetBlockedApp None] \<and>
   monitoring (deliver
      (serviceEffect True [appX] (removeLimit ''com.x'' (Map.empty(''com.x'' \<mapsto> 60000))) None None)
      (deliver (serviceEffect True [appX] (Map.empty(''com.x'' \<mapsto> 60000)) None None)
         freshDevice)) = False \<and>
   onAccessibilityEvent (scenarioAndroid ''com.x'' 60000)
     (config (deliver
        (serviceEffect True [appX] (removeLimit ''com.x'' (Map.empty(''com.x'' \<mapsto> 60000))) None None)
        (deliver (serviceEffect True [appX] (Map.empty(''com.x'' \<mapsto> 60000)) None None)
           freshDevice)))
     (Some (windowChanged ''com.x'')) =
     [QueryUsageStats, StartMainActivity (Some ''com.x''), PerformGlobalActionBack]"
  by (simp add: scenario_defs scenario3_defs android_eval serviceEffect_def startService_def
      stopService_def hasActiveLimits_def limitsArray_def removeLimit_def
      startBlockingService_def stopBlockingService_def)




text \<open>
  C9. After \<^verbatim>\<open>setLimit(p, v)\<close>, \<^verbatim>\<open>getLimit(p)\<close> returns \<open>v\<close>; after \<^verbatim>\<open>removeLimit(p)\<close> it
  returns \<^verbatim>\<open>undefined\<close>; in both cases the limit stored for any other package is what it
  was.
\<close>

theorem limits_store_set_get_remove:
  "getLimit (setLimit p v lims) p = Some v \<and>
   getLimit (removeLimit p lims) p = None \<and>
   (\<forall>q. q \<noteq> p \<longrightarrow>
      getLimit (setLimit p v lims) q = getLimit lims q \<and>
      getLimit (removeLimit p lims) q = getLimit lims q)"
  by (simp add: getLimit_def setLimit_def removeLimit_def)

theorem limits_store_set_get_remove_witness:
  "getLimit (setLimit ''com.x'' 60000 (Map.empty(''com.y'' \<mapsto> 5))) ''com.x'' = Some 60000 \<and>
   getLimit (removeLimit ''com.x'' (Map.empty(''com.y'' \<mapsto> 5))) ''com.x'' = None \<and>
   ''com.y'' \<noteq> ''com.x'' \<and>
   getLimit (setLimit ''com.x'' 60000 (Map.empty(''com.y'' \<mapsto> 5))) ''com.y'' =
     getLimit (Map.empty(''com.y'' \<mapsto> 5)) ''com.y'' \<and>
   getLimit (removeLimit ''com.x'' (Map.empty(''com.y'' \<mapsto> 5))) ''com.y'' =
     getLimit (Map.empty(''com.y'' \<mapsto> 5)) ''com.y''"
  using limits_store_set_get_remove [of "''com.x''" 60000 "Map.empty(''com.y'' \<mapsto> 5)"]
  by simp

text \<open>
  C10. In the evaluation of the hook, a package with a limit \<open>> 0\<close> that has no entry in
  the today-usage map is given the usage \<open>0\<close>, and no BlockState is emitted for it.
\<close>

theorem absent_usage_is_zero:
  "limits env p = Some L \<and> 0 < L \<and> todayUsage (fst (checkForBlockedApp env st)) p = None \<longrightarrow>
     usageOrZero (todayUsage (fst (checkForBlockedApp env st))) p = 0 \<and>
     \<not> (\<exists>b. emitsBlockState (snd (checkForBlockedApp env st)) b \<and> packageName b = p)"
proof (rule impI, elim conjE)
  let ?cur = "todayUsage (fst (checkForBlockedApp env st))"
  assume lim: "limits env p = Some L" "0 < L" and absent: "?cur p = None"
  then have zero: "usageOrZero ?cur p = 0" by (simp add: usageOrZero_def)
  have "False" if "emitsBlockState (snd (checkForBlockedApp env st)) b" "packageName b = p" for b
  proof -
    from check_emits_scan [OF that(1)] have
      "SetBlockedApp (Some b) \<in> set (scanSelectedApps (limits env) ?cur (foreground env) 0 (selectedApps env))"
      by simp
    from scan_emits_sound [OF this] that(2) lim zero show False by auto
  qed
  with zero show "usageOrZero ?cur p = 0 \<and>
     \<not> (\<exists>b. emitsBlockState (snd (checkForBlockedApp env st)) b \<and> packageName b = p)"
    by blast
qed

theorem absent_usage_is_zero_witness:
  "limits ((scenarioJs 60000 0 (Inr None))\<lparr>usageStatsModule := Some (Inr [])\<rparr>) ''com.x'' = Some 60000 \<and>
   todayUsage (fst (checkForBlockedApp ((scenarioJs 60000 0 (Inr None))\<lparr>usageStatsModule := Some (Inr [])\<rparr>)
      emptyStore)) ''com.x'' = None \<and>
   snd (checkForBlockedApp ((scenarioJs 60000 0 (Inr None))\<lparr>usageStatsModule := Some (Inr [])\<rparr>)
      emptyStore) = [GetTodayUsageStats, SetBlockedApp None] \<and>
   \<not> (\<exists>b. emitsBlockState (snd (checkForBlockedApp
        ((scenarioJs 60000 0 (Inr None))\<lparr>usageStatsModule := Some (Inr [])\<rparr>) emptyStore)) b \<and>
        packageName b = ''com.x'')"
  using absent_usage_is_zero [where env = "(scenarioJs 60000 0 (Inr None))\<lparr>usageStatsModule := Some (Inr [])\<rparr>"
      and p = "''com.x''" and L = 60000 and st = emptyStore]
  by (simp add: scenario_defs checkForBlockedApp_def hasActiveLimits_def refreshUsage_def
      usageArrayToMap_def usageOrZero_def)

end
